theory Spec2Isabelle
  imports Complex_Main "HOL-Library.Char_ord" "HOL-Library.List_Lexorder"
begin

chapter \<open>The model\<close>

section \<open>Python values and exceptions\<close>

text \<open>
  The ontology pipeline of \<^verbatim>\<open>src/HPO\<close> is Python driving Cypher statements against a
  graph store. Python exceptions are values of \<open>py_error\<close>; a function that can raise
  returns \<open>py_error + 'a\<close>. A Python \<^verbatim>\<open>str\<close> is a \<open>string\<close>; its comparison operators are
  the lexicographic order on code points, which is the order of \<open>List_Lexorder\<close> over
  \<open>Char_ord\<close> (characters here are the code points below 256).
\<close>

datatype py_error =
  TypeError | IndexError | AttributeError | KeyError | ValueError | StopIteration

text \<open>
  A field of a parsed term block is a string after the first occurrence of its key and
  a list of strings from the second occurrence on.
\<close>

datatype pyval = Str string | Lst "string list"

section \<open>Category classifier\<close>

subsection \<open>\<^verbatim>\<open>PhenotypeProcessor._determine_category\<close> (phenotype.py)\<close>

definition categories :: "(string \<times> string \<times> string) list" where
  "categories =
    [(''HP:0000005'', ''HP:0001999'', ''Inheritance''),
     (''HP:0000118'', ''HP:0001416'', ''Morphology''),
     (''HP:0000707'', ''HP:0001626'', ''Nervous System''),
     (''HP:0001574'', ''HP:0001780'', ''Integument''),
     (''HP:0000478'', ''HP:0000612'', ''Eye''),
     (''HP:0000598'', ''HP:0000706'', ''Ear''),
     (''HP:0000818'', ''HP:0000933'', ''Skeletal system''),
     (''HP:0001197'', ''HP:0001574'', ''Connective Tissue''),
     (''HP:0001507'', ''HP:0001573'', ''Growth''),
     (''HP:0001574'', ''HP:0001780'', ''Constitutional Symptom''),
     (''HP:0001781'', ''HP:0002060'', ''Limbs''),
     (''HP:0002061'', ''HP:0003128'', ''Musculature''),
     (''HP:0000152'', ''HP:0000589'', ''Head/Neck''),
     (''HP:0001608'', ''HP:0001621'', ''Voice''),
     (''HP:0001626'', ''HP:0001869'', ''Cardiovascular''),
     (''HP:0001871'', ''HP:0002087'', ''Blood''),
     (''HP:0002086'', ''HP:0002250'', ''Respiratory''),
     (''HP:0002242'', ''HP:0003011'', ''Abdomen''),
     (''HP:0000118'', ''HP:0000118'', ''Genitourinary system''),
     (''HP:0001939'', ''HP:0001939'', ''Metabolism/Homeostasis''),
     (''HP:0001871'', ''HP:0002597'', ''Endocrine''),
     (''HP:0002715'', ''HP:0004431'', ''Immunology''),
     (''HP:0004325'', ''HP:0004332'', ''Oncology''),
     (''HP:0032223'', ''HP:0033127'', ''Multisystem Disorder'')]"

text \<open>
  The loop \<^verbatim>\<open>for start, end, category in self.categories\<close>: the first rule with
  \<^verbatim>\<open>start <= hpo_id <= end\<close> (string comparison) returns; falling off the end returns
  \<^verbatim>\<open>'Other'\<close>.
\<close>

fun first_range :: "(string \<times> string \<times> string) list \<Rightarrow> string \<Rightarrow> string" where
  "first_range [] h = ''Other''"
| "first_range ((start, stop, category) # rules) h =
     (if start \<le> h \<and> h \<le> stop then category else first_range rules h)"

text \<open>
  \<^verbatim>\<open>if not hpo_id: return 'Other'\<close> catches the empty string and the empty list. A
  non-empty list reaches \<^verbatim>\<open>start <= hpo_id\<close>, which raises \<^verbatim>\<open>TypeError\<close> for a
  \<^verbatim>\<open>str\<close> against a \<^verbatim>\<open>list\<close>.
\<close>

fun determine_category :: "pyval \<Rightarrow> py_error + string" where
  "determine_category (Str h) =
     (if h = [] then Inr ''Other'' else Inr (first_range categories h))"
| "determine_category (Lst l) =
     (if l = [] then Inr ''Other'' else Inl TypeError)"

subsection \<open>\<^verbatim>\<open>MedicalKnowledgeGraphBuilder._determine_category\<close> (graph.py)\<close>

text \<open>
  \<^verbatim>\<open>str.strip()\<close> removes the characters for which \<^verbatim>\<open>str.isspace\<close> holds; among
  the code points below 256 these are 9 to 13, 28 to 31, 32, 133 and 160.
\<close>

definition py_isspace :: "char \<Rightarrow> bool" where
  "py_isspace c = ((of_char c :: nat) \<in> {9, 10, 11, 12, 13, 28, 29, 30, 31, 32, 133, 160})"

definition py_strip :: "string \<Rightarrow> string" where
  "py_strip s = rev (dropWhile py_isspace (rev (dropWhile py_isspace s)))"

text \<open>
  Python's \<^verbatim>\<open>int(s)\<close> on a string (CPython 3.11 with its default settings). The
  white space it skips at both ends is narrower than that of \<^verbatim>\<open>strip\<close>: the code
  points 9 to 13 and 32, and 133 and 160, which it first turns into blanks; 28 to 31 are
  not skipped. Then one sign is allowed, then decimal digits with single underscores
  between digits. More than 4300 digits, or anything else, raises \<^verbatim>\<open>ValueError\<close>.
\<close>

definition int_isspace :: "char \<Rightarrow> bool" where
  "int_isspace c = ((of_char c :: nat) \<in> {9, 10, 11, 12, 13, 32, 133, 160})"

definition int_strip :: "string \<Rightarrow> string" where
  "int_strip s = rev (dropWhile int_isspace (rev (dropWhile int_isspace s)))"

definition is_digit :: "char \<Rightarrow> bool" where
  "is_digit c = (48 \<le> (of_char c :: nat) \<and> (of_char c :: nat) \<le> 57)"

definition digit_val :: "char \<Rightarrow> nat" where
  "digit_val c = of_char c - 48"

fun digits_acc :: "nat \<Rightarrow> string \<Rightarrow> nat option" where
  "digits_acc n [] = Some n"
| "digits_acc n [c] = (if is_digit c then Some (10 * n + digit_val c) else None)"
| "digits_acc n (c # d # cs) =
     (if is_digit c then digits_acc (10 * n + digit_val c) (d # cs)
      else if c = CHR ''_'' \<and> is_digit d then digits_acc (10 * n + digit_val d) cs
      else None)"

definition parse_unsigned :: "string \<Rightarrow> nat option" where
  "parse_unsigned s =
     (case s of [] \<Rightarrow> None
      | c # cs \<Rightarrow> if is_digit c then digits_acc (digit_val c) cs else None)"

definition max_str_digits :: nat where
  "max_str_digits = 4300"

definition py_int :: "string \<Rightarrow> py_error + int" where
  "py_int s =
     (case int_strip s of
        [] \<Rightarrow> Inl ValueError
      | c # cs \<Rightarrow>
          (let body = (if c = CHR ''-'' \<or> c = CHR ''+'' then cs else c # cs) in
           if length (filter is_digit body) > max_str_digits then Inl ValueError
           else (case parse_unsigned body of
                   None \<Rightarrow> Inl ValueError
                 | Some n \<Rightarrow> Inr (if c = CHR ''-'' then - int n else int n))))"

text \<open>\<^verbatim>\<open>hpo_id.split(':')[1]\<close>, for an identifier that contains a colon.\<close>

definition split_colon_1 :: "string \<Rightarrow> string" where
  "split_colon_1 h =
     takeWhile (\<lambda>c. c \<noteq> CHR '':'') (tl (dropWhile (\<lambda>c. c \<noteq> CHR '':'') h))"

definition categories_graph :: "((int \<times> int) \<times> string) list" where
  "categories_graph =
    [((0, 1999), ''Morphology''),
     ((2000, 2999), ''Neurological''),
     ((3000, 3999), ''Behavioral''),
     ((4000, 4999), ''Metabolic''),
     ((5000, 5999), ''Cardiovascular''),
     ((6000, 6999), ''Respiratory''),
     ((7000, 7999), ''Digestive''),
     ((8000, 8999), ''Musculoskeletal''),
     ((9000, 9999), ''Immunological''),
     ((10000, 10999), ''Growth''),
     ((11000, 11999), ''Cellular''),
     ((12000, 12999), ''Constitutional'')]"

fun first_range_num :: "((int \<times> int) \<times> string) list \<Rightarrow> int \<Rightarrow> string" where
  "first_range_num [] i = ''Other''"
| "first_range_num (((start, stop), category) # rules) i =
     (if start \<le> i \<and> i \<le> stop then category else first_range_num rules i)"

text \<open>The body of the \<^verbatim>\<open>try\<close> block, and the function with its \<^verbatim>\<open>except Exception\<close>.\<close>

definition determine_category_num_try :: "string \<Rightarrow> py_error + string" where
  "determine_category_num_try h =
     (case (if CHR '':'' \<in> set h then py_int (split_colon_1 h) else Inr 0) of
        Inl e \<Rightarrow> Inl e
      | Inr id_num \<Rightarrow> Inr (first_range_num categories_graph id_num))"

definition determine_category_num :: "string \<Rightarrow> string" where
  "determine_category_num h =
     (case determine_category_num_try h of Inl e \<Rightarrow> ''Other'' | Inr c \<Rightarrow> c)"

text \<open>Membership of an identifier in the range of one rule of \<open>categories\<close>.\<close>

definition in_rule :: "string \<times> string \<times> string \<Rightarrow> string \<Rightarrow> bool" where
  "in_rule r h = (fst r \<le> h \<and> h \<le> fst (snd r))"

section \<open>The graph store\<close>

text \<open>
  The store is the sink of every Cypher statement. Nodes are keyed by their \<^verbatim>\<open>id\<close>
  property (unique by the constraints of constraints.py), relationships by their end
  points, one table per label and per relationship type; each table is an association
  list in creation order. A property that a statement may leave unset is an \<open>option\<close>.
  \<^verbatim>\<open>datetime()\<close> is the wall clock of the statement, given to the model as a number.
  Floating-point properties are exact reals.
\<close>

record phenotype_node =
  p_name :: pyval
  p_definition :: string
  p_synonyms :: pyval
  p_category :: string
  p_comment :: pyval
  p_xrefs :: pyval
  p_created_at :: nat
  p_modified_at :: nat
  p_cluster_id :: "string option"
  p_cluster_size :: "nat option"
  p_degree_centrality :: "nat option"
  p_betweenness_score :: "nat option"
  p_is_hub :: "bool option"
  p_cluster_coefficient :: "real option"
  p_prevalence :: "nat option"
  p_connectivity :: "nat option"
  p_specificity :: "real option"
  p_hierarchical_level :: "nat option"
  p_leaf_node :: "bool option"

record disease_node =
  d_name :: string
  d_modified_at :: nat

record is_a_edge =
  ia_confidence_score :: real
  ia_relationship_type :: string
  ia_created_at :: nat

record has_phenotype_edge =
  hp_evidence :: string
  hp_frequency :: string
  hp_onset :: string
  hp_created_at :: nat

record associated_with_edge =
  aw_co_occurrence_count :: nat
  aw_correlation_strength :: real
  aw_created_at :: nat
  aw_cross_cluster :: "bool option"
  aw_cluster_connection_strength :: "real option"

record sink =
  phenotypes :: "(string \<times> phenotype_node) list"
  diseases :: "(string \<times> disease_node) list"
  is_a :: "((string \<times> string) \<times> is_a_edge) list"
  has_phenotype :: "((string \<times> string) \<times> has_phenotype_edge) list"
  associated_with :: "((string \<times> string) \<times> associated_with_edge) list"

definition empty_sink :: sink where
  "empty_sink = \<lparr>phenotypes = [], diseases = [], is_a = [], has_phenotype = [],
     associated_with = []\<rparr>"

text \<open>
  \<^verbatim>\<open>MERGE ... SET ...\<close> on one key: an existing entry keeps its place and gets the
  \<^verbatim>\<open>SET\<close> applied; otherwise a fresh entry, \<open>blank\<close> with the \<^verbatim>\<open>SET\<close> applied, is
  created at the end.
\<close>

fun upsert :: "'k \<Rightarrow> 'v \<Rightarrow> ('v \<Rightarrow> 'v) \<Rightarrow> ('k \<times> 'v) list \<Rightarrow> ('k \<times> 'v) list" where
  "upsert k blank f [] = [(k, f blank)]"
| "upsert k blank f ((k', v) # al) =
     (if k' = k then (k', f v) # al else (k', v) # upsert k blank f al)"

definition has_key :: "('k \<times> 'v) list \<Rightarrow> 'k \<Rightarrow> bool" where
  "has_key al k = (map_of al k \<noteq> None)"

definition blank_phenotype :: phenotype_node where
  "blank_phenotype = \<lparr>p_name = Str [], p_definition = [], p_synonyms = Lst [],
     p_category = [], p_comment = Str [], p_xrefs = Lst [], p_created_at = 0,
     p_modified_at = 0, p_cluster_id = None, p_cluster_size = None,
     p_degree_centrality = None, p_betweenness_score = None, p_is_hub = None,
     p_cluster_coefficient = None, p_prevalence = None, p_connectivity = None,
     p_specificity = None, p_hierarchical_level = None, p_leaf_node = None\<rparr>"

definition blank_disease :: disease_node where
  "blank_disease = \<lparr>d_name = [], d_modified_at = 0\<rparr>"

definition blank_is_a :: is_a_edge where
  "blank_is_a = \<lparr>ia_confidence_score = 0, ia_relationship_type = [], ia_created_at = 0\<rparr>"

definition blank_has_phenotype :: has_phenotype_edge where
  "blank_has_phenotype = \<lparr>hp_evidence = [], hp_frequency = [], hp_onset = [],
     hp_created_at = 0\<rparr>"

definition blank_associated_with :: associated_with_edge where
  "blank_associated_with = \<lparr>aw_co_occurrence_count = 0, aw_correlation_strength = 0,
     aw_created_at = 0, aw_cross_cluster = None, aw_cluster_connection_strength = None\<rparr>"

section \<open>Term ingestion (phenotype.py)\<close>

subsection \<open>The records of a batch and \<^verbatim>\<open>_process_batch\<close>\<close>

record term_node =
  n_id :: string
  n_name :: pyval
  n_definition :: string
  n_synonyms :: pyval
  n_category :: string
  n_comment :: pyval
  n_xrefs :: pyval

text \<open>
  A batch holds node dictionaries (no \<^verbatim>\<open>'type'\<close> key) and relationship dictionaries
  (\<^verbatim>\<open>'type': 'relationship'\<close>, with \<^verbatim>\<open>child_id\<close> and \<^verbatim>\<open>parent_id\<close>).
\<close>

datatype item = Node term_node | Relationship string string

fun node_items :: "item list \<Rightarrow> term_node list" where
  "node_items [] = []"
| "node_items (Node n # b) = n # node_items b"
| "node_items (Relationship c p # b) = node_items b"

fun relationship_items :: "item list \<Rightarrow> (string \<times> string) list" where
  "relationship_items [] = []"
| "relationship_items (Node n # b) = relationship_items b"
| "relationship_items (Relationship c p # b) = (c, p) # relationship_items b"

definition set_phenotype :: "nat \<Rightarrow> term_node \<Rightarrow> phenotype_node \<Rightarrow> phenotype_node" where
  "set_phenotype now n p = p\<lparr>p_name := n_name n, p_definition := n_definition n,
     p_synonyms := n_synonyms n, p_category := n_category n, p_comment := n_comment n,
     p_xrefs := n_xrefs n, p_created_at := now, p_modified_at := now\<rparr>"

definition set_is_a :: "nat \<Rightarrow> is_a_edge \<Rightarrow> is_a_edge" where
  "set_is_a now r = r\<lparr>ia_confidence_score := 1, ia_relationship_type := ''direct'',
     ia_created_at := now\<rparr>"

text \<open>The first statement: \<^verbatim>\<open>UNWIND $nodes AS node MERGE (p:Phenotype {id: node.id}) SET ...\<close>.\<close>

definition merge_nodes :: "nat \<Rightarrow> term_node list \<Rightarrow> sink \<Rightarrow> sink" where
  "merge_nodes now ns s =
     s\<lparr>phenotypes := fold (\<lambda>n. upsert (n_id n) blank_phenotype (set_phenotype now n)) ns
          (phenotypes s)\<rparr>"

text \<open>
  The second statement: a row whose child or parent \<^verbatim>\<open>MATCH\<close> finds no Phenotype node
  is dropped; the others \<^verbatim>\<open>MERGE (child)-[r:IS_A]->(parent)\<close> and set the properties.
\<close>

definition merge_is_a :: "nat \<Rightarrow> (string \<times> string) list \<Rightarrow> sink \<Rightarrow> sink" where
  "merge_is_a now rels s =
     s\<lparr>is_a := fold (\<lambda>(c, p) es.
            if has_key (phenotypes s) c \<and> has_key (phenotypes s) p
            then upsert (c, p) blank_is_a (set_is_a now) es else es) rels (is_a s)\<rparr>"

text \<open>
  \<^verbatim>\<open>_process_batch\<close>: the nodes of the batch first, then its relationships, each
  statement only when its list is not empty. \<open>now\<close> holds the clock of the two
  statements.
\<close>

definition process_batch :: "nat \<times> nat \<Rightarrow> item list \<Rightarrow> sink \<Rightarrow> sink" where
  "process_batch now b s =
     (let ns = node_items b;
          rels = relationship_items b;
          s1 = (if ns \<noteq> [] then merge_nodes (fst now) ns s else s)
      in if rels \<noteq> [] then merge_is_a (snd now) rels s1 else s1)"

subsection \<open>The parsing loop of \<^verbatim>\<open>process_obo_file\<close>\<close>

text \<open>
  \<^verbatim>\<open>current_term\<close> is a dictionary from keys to a string or a list of strings.
  \<^verbatim>\<open>d[k] = v\<close> is \<open>dict_set\<close>, \<^verbatim>\<open>d.get(k, default)\<close> is \<open>dict_get\<close>.
\<close>

type_synonym term_dict = "(string \<times> pyval) list"

definition dict_set :: "'k \<Rightarrow> 'v \<Rightarrow> ('k \<times> 'v) list \<Rightarrow> ('k \<times> 'v) list" where
  "dict_set k v d = upsert k v (\<lambda>_. v) d"

definition dict_get :: "('k \<times> 'v) list \<Rightarrow> 'k \<Rightarrow> 'v \<Rightarrow> 'v" where
  "dict_get d k dflt = (case map_of d k of None \<Rightarrow> dflt | Some v \<Rightarrow> v)"

text \<open>
  The \<^verbatim>\<open>elif ':' in line\<close> branch. \<^verbatim>\<open>line.split(':', 1)\<close> cuts at the first colon;
  a key seen for the first time stores the string, the second time the two-element
  list, later times append.
\<close>

definition add_field :: "string \<Rightarrow> string \<Rightarrow> term_dict \<Rightarrow> term_dict" where
  "add_field key val ct =
     (case map_of ct key of
        Some (Lst l) \<Rightarrow> dict_set key (Lst (l @ [val])) ct
      | Some (Str s) \<Rightarrow> dict_set key (Lst [s, val]) ct
      | None \<Rightarrow> dict_set key (Str val) ct)"

definition key_value :: "string \<Rightarrow> string \<times> string" where
  "key_value line =
     (py_strip (takeWhile (\<lambda>c. c \<noteq> CHR '':'') line),
      py_strip (tl (dropWhile (\<lambda>c. c \<noteq> CHR '':'') line)))"

text \<open>
  \<^verbatim>\<open>current_term.get('def', '').split('"')[1] if 'def' in current_term else ''\<close>: a list
  has no \<^verbatim>\<open>split\<close> (\<^verbatim>\<open>AttributeError\<close>), a string without a double quote has no
  second piece (\<^verbatim>\<open>IndexError\<close>).
\<close>

definition quoted_1 :: "string \<Rightarrow> py_error + string" where
  "quoted_1 s =
     (if CHR 0x22 \<in> set s
      then Inr (takeWhile (\<lambda>c. c \<noteq> CHR 0x22) (tl (dropWhile (\<lambda>c. c \<noteq> CHR 0x22) s)))
      else Inl IndexError)"

definition term_definition :: "term_dict \<Rightarrow> py_error + string" where
  "term_definition ct =
     (case map_of ct ''def'' of
        None \<Rightarrow> Inr []
      | Some (Str s) \<Rightarrow> quoted_1 s
      | Some (Lst l) \<Rightarrow> Inl AttributeError)"

text \<open>
  \<^verbatim>\<open>for parent in current_term['is_a']\<close> iterates over the elements of a list, and
  over the characters of a string: a block with a single \<^verbatim>\<open>is_a\<close> line holds a
  string. \<^verbatim>\<open>parent.split(' ')[0]\<close> is the text before the first blank.
\<close>

fun py_iter :: "pyval \<Rightarrow> string list" where
  "py_iter (Str s) = map (\<lambda>c. [c]) s"
| "py_iter (Lst l) = l"

definition parent_id_of :: "string \<Rightarrow> string" where
  "parent_id_of parent = takeWhile (\<lambda>c. c \<noteq> CHR '' '') parent"

text \<open>
  The records appended to the batch at a \<^verbatim>\<open>[Term]\<close> line for the block read so far:
  none unless the block has an \<^verbatim>\<open>id\<close>; otherwise its node and one relationship per
  iteration over \<^verbatim>\<open>is_a\<close>. The category is computed first and raises \<^verbatim>\<open>TypeError\<close>
  on a list-valued \<^verbatim>\<open>id\<close> (a list in \<^verbatim>\<open>current_term\<close> has two entries or more, as
  \<open>add_field\<close> builds it, so a list-valued \<^verbatim>\<open>id\<close> never gets further).
\<close>

definition term_items :: "term_dict \<Rightarrow> py_error + item list" where
  "term_items ct =
     (if ct \<noteq> [] \<and> has_key ct ''id'' then
        (case determine_category (dict_get ct ''id'' (Str [])) of
           Inl e \<Rightarrow> Inl e
         | Inr category \<Rightarrow>
            (case dict_get ct ''id'' (Str []) of
               Lst l \<Rightarrow> Inl TypeError
             | Str i \<Rightarrow>
                (case term_definition ct of
                   Inl e \<Rightarrow> Inl e
                 | Inr d \<Rightarrow>
                    Inr (Node \<lparr>n_id = i, n_name = dict_get ct ''name'' (Str []),
                           n_definition = d, n_synonyms = dict_get ct ''synonym'' (Lst []),
                           n_category = category, n_comment = dict_get ct ''comment'' (Str []),
                           n_xrefs = dict_get ct ''xref'' (Lst [])\<rparr>
                         # (case map_of ct ''is_a'' of
                              None \<Rightarrow> []
                            | Some v \<Rightarrow> map (\<lambda>parent. Relationship i (parent_id_of parent))
                                         (py_iter v))))))
      else Inr [])"

text \<open>
  The loop state: the block being read, the batch, the store behind the session and the
  number of batches sent so far (the index into the clock). The counters that the
  function only prints are left out.
\<close>

record obo_state =
  current_term :: term_dict
  batch :: "item list"
  session :: sink
  flushed :: nat

definition obo_line :: "nat \<Rightarrow> (nat \<Rightarrow> nat \<times> nat) \<Rightarrow> string \<Rightarrow> obo_state \<Rightarrow> py_error + obo_state" where
  "obo_line batch_size clock raw st =
     (let line = py_strip raw in
      if line = ''[Term]'' then
        (case term_items (current_term st) of
           Inl e \<Rightarrow> Inl e
         | Inr items \<Rightarrow>
            (let b = batch st @ items in
             if length b \<ge> batch_size
             then Inr (st\<lparr>current_term := [], batch := [],
                        session := process_batch (clock (flushed st)) b (session st),
                        flushed := Suc (flushed st)\<rparr>)
             else Inr (st\<lparr>current_term := [], batch := b\<rparr>)))
      else if CHR '':'' \<in> set line then
        Inr (st\<lparr>current_term :=
               add_field (fst (key_value line)) (snd (key_value line)) (current_term st)\<rparr>)
      else Inr st)"

fun obo_lines :: "nat \<Rightarrow> (nat \<Rightarrow> nat \<times> nat) \<Rightarrow> string list \<Rightarrow> obo_state \<Rightarrow> py_error + obo_state" where
  "obo_lines batch_size clock [] st = Inr st"
| "obo_lines batch_size clock (l # ls) st =
     (case obo_line batch_size clock l st of
        Inl e \<Rightarrow> Inl e
      | Inr st' \<Rightarrow> obo_lines batch_size clock ls st')"

text \<open>
  \<^verbatim>\<open>process_obo_file\<close>: the loop over the lines of the file, then
  \<^verbatim>\<open>if batch: self._process_batch(session, batch)\<close>. The block held in
  \<^verbatim>\<open>current_term\<close> when the lines end is not looked at again.
\<close>

definition process_obo_file :: "nat \<Rightarrow> (nat \<Rightarrow> nat \<times> nat) \<Rightarrow> string list \<Rightarrow> sink \<Rightarrow> py_error + sink" where
  "process_obo_file batch_size clock lines s =
     (case obo_lines batch_size clock lines
             \<lparr>current_term = [], batch = [], session = s, flushed = 0\<rparr> of
        Inl e \<Rightarrow> Inl e
      | Inr st \<Rightarrow>
          Inr (if batch st \<noteq> []
               then process_batch (clock (flushed st)) (batch st) (session st)
               else session st))"

section \<open>Annotation ingestion (disease.py)\<close>

record annotation =
  disease_id :: string
  disease_name :: string
  phenotype_id :: string
  evidence :: string
  frequency :: string
  onset :: string

text \<open>\<^verbatim>\<open>s.split(sep)\<close> for a one-character separator.\<close>

fun split_on :: "char \<Rightarrow> string \<Rightarrow> string list" where
  "split_on sep [] = [[]]"
| "split_on sep (c # cs) =
     (if c = sep then [] # split_on sep cs
      else (case split_on sep cs of [] \<Rightarrow> [[c]] | w # ws \<Rightarrow> (c # w) # ws))"

definition parse_annotation :: "string \<Rightarrow> annotation option" where
  "parse_annotation line =
     (let parts = split_on (CHR 0x09) (py_strip line) in
      if length parts \<ge> 4
      then Some \<lparr>disease_id = parts ! 0, disease_name = parts ! 1, phenotype_id = parts ! 3,
                 evidence = (if length parts > 5 then parts ! 5 else []),
                 frequency = (if length parts > 8 then parts ! 8 else []),
                 onset = (if length parts > 9 then parts ! 9 else [])\<rparr>
      else None)"

definition set_disease :: "nat \<Rightarrow> annotation \<Rightarrow> disease_node \<Rightarrow> disease_node" where
  "set_disease now a d = d\<lparr>d_name := disease_name a, d_modified_at := now\<rparr>"

definition set_has_phenotype :: "nat \<Rightarrow> annotation \<Rightarrow> has_phenotype_edge \<Rightarrow> has_phenotype_edge" where
  "set_has_phenotype now a r = r\<lparr>hp_evidence := evidence a, hp_frequency := frequency a,
     hp_onset := onset a, hp_created_at := now\<rparr>"

text \<open>
  \<^verbatim>\<open>_process_annotation_batch\<close>: every row merges its Disease node; a row whose
  \<^verbatim>\<open>MATCH (p:Phenotype {id: annotation.phenotype_id})\<close> finds a node then merges the
  \<^verbatim>\<open>HAS_PHENOTYPE\<close> relationship.
\<close>

definition process_annotation_batch :: "nat \<Rightarrow> annotation list \<Rightarrow> sink \<Rightarrow> sink" where
  "process_annotation_batch now b s =
     s\<lparr>diseases := fold (\<lambda>a. upsert (disease_id a) blank_disease (set_disease now a)) b
          (diseases s),
       has_phenotype := fold (\<lambda>a es.
            if has_key (phenotypes s) (phenotype_id a)
            then upsert (disease_id a, phenotype_id a) blank_has_phenotype
                   (set_has_phenotype now a) es
            else es) b (has_phenotype s)\<rparr>"

record annotation_state =
  a_batch :: "annotation list"
  a_session :: sink
  a_flushed :: nat

definition annotation_line :: "nat \<Rightarrow> (nat \<Rightarrow> nat) \<Rightarrow> string \<Rightarrow> annotation_state \<Rightarrow> annotation_state" where
  "annotation_line batch_size clock line st =
     (if take 1 line = ''#'' then st
      else (case parse_annotation line of
              None \<Rightarrow> st
            | Some a \<Rightarrow>
               (let b = a_batch st @ [a] in
                if length b \<ge> batch_size
                then st\<lparr>a_batch := [],
                        a_session := process_annotation_batch (clock (a_flushed st)) b (a_session st),
                        a_flushed := Suc (a_flushed st)\<rparr>
                else st\<lparr>a_batch := b\<rparr>)))"

text \<open>
  \<^verbatim>\<open>process_phenotype_annotations\<close>: \<^verbatim>\<open>next(file)\<close> skips the header line and raises
  \<^verbatim>\<open>StopIteration\<close> on an empty file.
\<close>

definition process_phenotype_annotations :: "nat \<Rightarrow> (nat \<Rightarrow> nat) \<Rightarrow> string list \<Rightarrow> sink \<Rightarrow> py_error + sink" where
  "process_phenotype_annotations batch_size clock lines s =
     (case lines of
        [] \<Rightarrow> Inl StopIteration
      | header # rest \<Rightarrow>
          (let st = fold (annotation_line batch_size clock) rest
                      \<lparr>a_batch = [], a_session = s, a_flushed = 0\<rparr>
           in Inr (if a_batch st \<noteq> []
                   then process_annotation_batch (clock (a_flushed st)) (a_batch st) (a_session st)
                   else a_session st)))"

section \<open>The in-memory query index (conn.py)\<close>

subsection \<open>\<^verbatim>\<open>HPOParser.parse_obo\<close>\<close>

text \<open>
  A term of the index is a dictionary with the keys \<^verbatim>\<open>id\<close>, \<^verbatim>\<open>name\<close>,
  \<^verbatim>\<open>definition\<close> and \<^verbatim>\<open>is_a\<close>, each present or not. \<^verbatim>\<open>current_term\<close> starts as
  \<^verbatim>\<open>None\<close>; \<^verbatim>\<open>if current_term:\<close> is false for \<^verbatim>\<open>None\<close> and for the empty
  dictionary.
\<close>

record index_term =
  t_id :: "string option"
  t_name :: "string option"
  t_definition :: "string option"
  t_is_a :: "string list option"

definition empty_term :: index_term where
  "empty_term = \<lparr>t_id = None, t_name = None, t_definition = None, t_is_a = None\<rparr>"

record index_state =
  i_current :: "index_term option"
  i_terms :: "(string \<times> index_term) list"

text \<open>\<^verbatim>\<open>self.terms[current_term['id']] = current_term\<close>, when \<^verbatim>\<open>current_term\<close> is true.\<close>

definition store_term :: "index_state \<Rightarrow> py_error + (string \<times> index_term) list" where
  "store_term st =
     (case i_current st of
        None \<Rightarrow> Inr (i_terms st)
      | Some ct \<Rightarrow>
          if ct = empty_term then Inr (i_terms st)
          else (case t_id ct of
                  None \<Rightarrow> Inl KeyError
                | Some i \<Rightarrow> Inr (dict_set i ct (i_terms st))))"

definition startswith :: "string \<Rightarrow> string \<Rightarrow> bool" where
  "startswith s p = (take (length p) s = p)"

text \<open>\<^verbatim>\<open>s.split(sep)[0]\<close>: the text before the first occurrence of \<open>sep\<close>.\<close>

fun before_sep :: "string \<Rightarrow> string \<Rightarrow> string" where
  "before_sep sep [] = []"
| "before_sep sep (c # cs) =
     (if take (length sep) (c # cs) = sep then [] else c # before_sep sep cs)"

text \<open>
  One line of the loop. Storing into \<^verbatim>\<open>current_term\<close> while it is still \<^verbatim>\<open>None\<close>
  raises \<^verbatim>\<open>TypeError\<close>; the right-hand side of the \<^verbatim>\<open>def:\<close> branch is evaluated first.
\<close>

definition index_line :: "string \<Rightarrow> index_state \<Rightarrow> py_error + index_state" where
  "index_line raw st =
     (let line = py_strip raw in
      if line = ''[Term]'' then
        (case store_term st of
           Inl e \<Rightarrow> Inl e
         | Inr ts \<Rightarrow> Inr (st\<lparr>i_current := Some empty_term, i_terms := ts\<rparr>))
      else if startswith line ''id: '' then
        (case i_current st of
           None \<Rightarrow> Inl TypeError
         | Some ct \<Rightarrow> Inr (st\<lparr>i_current := Some (ct\<lparr>t_id := Some (drop 4 line)\<rparr>)\<rparr>))
      else if startswith line ''name: '' then
        (case i_current st of
           None \<Rightarrow> Inl TypeError
         | Some ct \<Rightarrow> Inr (st\<lparr>i_current := Some (ct\<lparr>t_name := Some (drop 6 line)\<rparr>)\<rparr>))
      else if startswith line ''def: '' then
        (case quoted_1 (drop 5 line) of
           Inl e \<Rightarrow> Inl e
         | Inr d \<Rightarrow>
            (case i_current st of
               None \<Rightarrow> Inl TypeError
             | Some ct \<Rightarrow> Inr (st\<lparr>i_current := Some (ct\<lparr>t_definition := Some d\<rparr>)\<rparr>)))
      else if startswith line ''is_a: '' then
        (case i_current st of
           None \<Rightarrow> Inl TypeError
         | Some ct \<Rightarrow>
            Inr (st\<lparr>i_current := Some (ct\<lparr>t_is_a :=
                   Some ((case t_is_a ct of None \<Rightarrow> [] | Some ps \<Rightarrow> ps)
                         @ [before_sep '' !'' (drop 6 line)])\<rparr>)\<rparr>))
      else Inr st)"

fun index_lines :: "string list \<Rightarrow> index_state \<Rightarrow> py_error + index_state" where
  "index_lines [] st = Inr st"
| "index_lines (l # ls) st =
     (case index_line l st of Inl e \<Rightarrow> Inl e | Inr st' \<Rightarrow> index_lines ls st')"

text \<open>The loop and, after it, \<^verbatim>\<open># Add the last term\<close>.\<close>

definition parse_terms :: "string list \<Rightarrow> py_error + (string \<times> index_term) list" where
  "parse_terms lines =
     (case index_lines lines \<lparr>i_current = None, i_terms = []\<rparr> of
        Inl e \<Rightarrow> Inl e
      | Inr st \<Rightarrow> store_term st)"

subsection \<open>The directed graph\<close>

text \<open>
  \<^verbatim>\<open>networkx.DiGraph\<close> with the node and edge sets in insertion order (node attributes
  are not read by the queries and are left out). \<^verbatim>\<open>add_edge(u, v)\<close> adds missing end
  points.
\<close>

record digraph =
  g_nodes :: "string list"
  g_edges :: "(string \<times> string) list"

definition add_node :: "string \<Rightarrow> digraph \<Rightarrow> digraph" where
  "add_node n g = (if n \<in> set (g_nodes g) then g else g\<lparr>g_nodes := g_nodes g @ [n]\<rparr>)"

definition add_edge :: "string \<Rightarrow> string \<Rightarrow> digraph \<Rightarrow> digraph" where
  "add_edge u v g =
     (let g' = add_node v (add_node u g) in
      if (u, v) \<in> set (g_edges g') then g' else g'\<lparr>g_edges := g_edges g' @ [(u, v)]\<rparr>)"

text \<open>
  \<^verbatim>\<open>for term_id, term in self.terms.items()\<close>: the node, then one edge
  \<^verbatim>\<open>term_id -> parent\<close> per \<^verbatim>\<open>is_a\<close> entry.
\<close>

definition add_term :: "string \<times> index_term \<Rightarrow> digraph \<Rightarrow> digraph" where
  "add_term e g =
     fold (\<lambda>parent. add_edge (fst e) parent)
       (case t_is_a (snd e) of None \<Rightarrow> [] | Some ps \<Rightarrow> ps) (add_node (fst e) g)"

definition build_graph :: "(string \<times> index_term) list \<Rightarrow> digraph" where
  "build_graph ts = fold add_term ts \<lparr>g_nodes = [], g_edges = []\<rparr>"

definition parse_obo :: "string list \<Rightarrow> py_error + digraph" where
  "parse_obo lines =
     (case parse_terms lines of Inl e \<Rightarrow> Inl e | Inr ts \<Rightarrow> Inr (build_graph ts))"

subsection \<open>\<^verbatim>\<open>get_ancestors\<close> and \<^verbatim>\<open>get_descendants\<close>\<close>

text \<open>
  \<^verbatim>\<open>networkx.descendants(G, source)\<close> is the set of nodes reached from \<open>source\<close>
  by a breadth-first search along the edges, \<open>source\<close> left out;
  \<^verbatim>\<open>networkx.ancestors(G, source)\<close> is the same search along the reversed edges. Both
  raise \<^verbatim>\<open>NetworkXError\<close> when \<open>source\<close> is not a node. \<open>bfs\<close> is the search: the
  list of visited nodes and the queue.
\<close>

function bfs :: "('a \<times> 'a) list \<Rightarrow> 'a list \<Rightarrow> 'a list \<Rightarrow> 'a list" where
  "bfs E visited [] = visited"
| "bfs E visited (x # queue) =
     (if x \<in> set visited then bfs E visited queue
      else bfs E (visited @ [x]) (queue @ map snd (filter (\<lambda>e. fst e = x) E)))"
  by pat_completeness auto
termination
proof (relation "measures
    [\<lambda>(E, visited, queue). card ((snd ` set E \<union> set queue) - set visited),
     \<lambda>(E, visited, queue). length queue]")
  show "wf (measures
    [\<lambda>(E :: ('a \<times> 'a) list, visited, queue). card ((snd ` set E \<union> set queue) - set visited),
     \<lambda>(E, visited, queue). length queue])"
    by simp
next
  fix E :: "('a \<times> 'a) list" and visited :: "'a list" and x :: 'a and queue :: "'a list"
  assume "x \<in> set visited"
  then have "(snd ` set E \<union> set (x # queue)) - set visited = (snd ` set E \<union> set queue) - set visited"
    by auto
  then show "((E, visited, queue), (E, visited, x # queue)) \<in> measures
    [\<lambda>(E, visited, queue). card ((snd ` set E \<union> set queue) - set visited),
     \<lambda>(E, visited, queue). length queue]"
    by simp
next
  fix E :: "('a \<times> 'a) list" and visited :: "'a list" and x :: 'a and queue :: "'a list"
  assume x: "x \<notin> set visited"
  let ?new = "(snd ` set E \<union> set (queue @ map snd (filter (\<lambda>e. fst e = x) E))) - set (visited @ [x])"
  let ?old = "(snd ` set E \<union> set (x # queue)) - set visited"
  have "?new \<subseteq> ?old - {x}" by auto
  moreover have "x \<in> ?old" using x by simp
  ultimately have "?new \<subset> ?old" by blast
  moreover have "finite ?old" by simp
  ultimately have "card ?new < card ?old" by (rule psubset_card_mono[rotated])
  then show "((E, visited @ [x], queue @ map snd (filter (\<lambda>e. fst e = x) E)), (E, visited, x # queue))
    \<in> measures
    [\<lambda>(E, visited, queue). card ((snd ` set E \<union> set queue) - set visited),
     \<lambda>(E, visited, queue). length queue]"
    by simp
qed

definition nx_descendants :: "digraph \<Rightarrow> string \<Rightarrow> string list" where
  "nx_descendants g source = filter (\<lambda>n. n \<noteq> source) (bfs (g_edges g) [] [source])"

definition nx_ancestors :: "digraph \<Rightarrow> string \<Rightarrow> string list" where
  "nx_ancestors g source =
     filter (\<lambda>n. n \<noteq> source) (bfs (map (\<lambda>(u, v). (v, u)) (g_edges g)) [] [source])"

text \<open>The two queries, with their \<^verbatim>\<open>except nx.NetworkXError: return []\<close>.\<close>

definition get_ancestors :: "digraph \<Rightarrow> string \<Rightarrow> string list" where
  "get_ancestors g term_id =
     (if term_id \<in> set (g_nodes g) then nx_ancestors g term_id else [])"

definition get_descendants :: "digraph \<Rightarrow> string \<Rightarrow> string list" where
  "get_descendants g term_id =
     (if term_id \<in> set (g_nodes g) then nx_descendants g term_id else [])"

section \<open>Statements as lists of keyed writes\<close>

text \<open>
  Notions for stating what a statement does to one table of the store: the list of
  writes (key and \<^verbatim>\<open>SET\<close>) it performs in order, and when a later \<^verbatim>\<open>SET\<close> overwrites
  all that an earlier one wrote.
\<close>

definition apply_ops :: "'v \<Rightarrow> ('k \<times> ('v \<Rightarrow> 'v)) list \<Rightarrow> ('k \<times> 'v) list \<Rightarrow> ('k \<times> 'v) list" where
  "apply_ops d ops al = fold (\<lambda>(k, f). upsert k d f) ops al"


text \<open>The writes of the two statements of \<^verbatim>\<open>_process_batch\<close> and of the annotation statement.\<close>

definition node_ops :: "nat \<Rightarrow> term_node list \<Rightarrow> (string \<times> (phenotype_node \<Rightarrow> phenotype_node)) list" where
  "node_ops now ns = map (\<lambda>n. (n_id n, set_phenotype now n)) ns"

definition is_a_ops :: "nat \<Rightarrow> (string \<Rightarrow> bool) \<Rightarrow> (string \<times> string) list \<Rightarrow>
    ((string \<times> string) \<times> (is_a_edge \<Rightarrow> is_a_edge)) list" where
  "is_a_ops now known rels =
     map (\<lambda>r. (r, set_is_a now)) (filter (\<lambda>r. known (fst r) \<and> known (snd r)) rels)"



section \<open>Association mining and analytics (graph_enhancer.py)\<close>

subsection \<open>\<^verbatim>\<open>GraphEnhancer.create_symptom_relationships\<close>\<close>

text \<open>
  The rows of
  \<^verbatim>\<open>MATCH (p1)<-[:HAS_PHENOTYPE]-(d:Disease)-[:HAS_PHENOTYPE]->(p2:Phenotype) WHERE p1 <> p2\<close>
  for the anchor \<open>p1\<close>: one row, holding \<open>p2\<close>, per pair of a relationship from a
  Disease \<open>d\<close> into \<open>p1\<close> and a relationship from the same \<open>d\<close> into another
  Phenotype.
\<close>

definition co_occurrence_rows :: "sink \<Rightarrow> string \<Rightarrow> string list" where
  "co_occurrence_rows s p1 =
     concat (map (\<lambda>r1.
        if snd (fst r1) = p1 \<and> has_key (diseases s) (fst (fst r1))
        then map (\<lambda>r2. snd (fst r2))
               (filter (\<lambda>r2. fst (fst r2) = fst (fst r1) \<and> snd (fst r2) \<noteq> p1 \<and>
                              has_key (phenotypes s) (snd (fst r2)))
                  (has_phenotype s))
        else []) (has_phenotype s))"

text \<open>\<^verbatim>\<open>MATCH (p1)<-[r1:HAS_PHENOTYPE]-() ... COUNT(r1) as total_occurrences\<close>.\<close>

definition total_occurrences :: "sink \<Rightarrow> string \<Rightarrow> nat" where
  "total_occurrences s p1 = length (filter (\<lambda>r. snd (fst r) = p1) (has_phenotype s))"

text \<open>
  The rows are grouped by \<open>p2\<close> with \<^verbatim>\<open>COUNT(d) as co_occurrences\<close>.
\<close>

definition co_occurrences :: "sink \<Rightarrow> string \<Rightarrow> string \<Rightarrow> nat" where
  "co_occurrences s p1 p2 = length (filter (\<lambda>x. x = p2) (co_occurrence_rows s p1))"

text \<open>
  The result rows for one anchor: \<^verbatim>\<open>WHERE co_occurrences >= 5\<close> keeps a group, which
  then gets its \<open>total_occurrences\<close>. An identifier of the page that matches no
  Phenotype node gives no row.
\<close>

definition anchor_rows :: "sink \<Rightarrow> string \<Rightarrow> ((string \<times> string) \<times> nat \<times> nat) list" where
  "anchor_rows s pid1 =
     (if has_key (phenotypes s) pid1
      then map (\<lambda>p2. ((pid1, p2), co_occurrences s pid1 p2, total_occurrences s pid1))
             (filter (\<lambda>p2. co_occurrences s pid1 p2 \<ge> 5) (remdups (co_occurrence_rows s pid1)))
      else [])"

definition set_associated_with :: "nat \<Rightarrow> nat \<Rightarrow> nat \<Rightarrow> associated_with_edge \<Rightarrow> associated_with_edge" where
  "set_associated_with now co tot r =
     r\<lparr>aw_co_occurrence_count := co,
       aw_correlation_strength := real co * 1.0 / real tot,
       aw_created_at := now\<rparr>"

text \<open>The statement for one page of anchors: \<^verbatim>\<open>MERGE (p1)-[r:ASSOCIATED_WITH]->(p2) SET ...\<close>.\<close>

definition mine_page :: "nat \<Rightarrow> string list \<Rightarrow> sink \<Rightarrow> sink" where
  "mine_page now page s =
     s\<lparr>associated_with :=
         fold (\<lambda>row. upsert (fst row) blank_associated_with
                        (set_associated_with now (fst (snd row)) (snd (snd row))))
           (concat (map (anchor_rows s) page)) (associated_with s)\<rparr>"

text \<open>\<^verbatim>\<open>for i in range(0, total, batch_size): batch = phenotypes[i:i + batch_size]\<close>, with
  \<^verbatim>\<open>batch_size = 100\<close>.\<close>

function pages_of_100 :: "'a list \<Rightarrow> 'a list list" where
  "pages_of_100 xs = (if xs = [] then [] else take 100 xs # pages_of_100 (drop 100 xs))"
  by pat_completeness auto
termination
  by (relation "measure length") auto

declare pages_of_100.simps [simp del]

fun mine_pages :: "(nat \<Rightarrow> nat) \<Rightarrow> nat \<Rightarrow> string list list \<Rightarrow> sink \<Rightarrow> sink" where
  "mine_pages clock i [] s = s"
| "mine_pages clock i (page # pages) s = mine_pages clock (Suc i) pages (mine_page (clock i) page s)"

text \<open>
  The identifiers come from \<^verbatim>\<open>MATCH (p:Phenotype) RETURN p.id as id ORDER BY p.id\<close>;
  \<open>clock i\<close> is the clock of the statement for page \<open>i\<close>.
\<close>

definition create_symptom_relationships :: "(nat \<Rightarrow> nat) \<Rightarrow> sink \<Rightarrow> sink" where
  "create_symptom_relationships clock s =
     mine_pages clock 0 (pages_of_100 (sort (map fst (phenotypes s)))) s"

subsection \<open>\<^verbatim>\<open>GraphEnhancer.create_symptom_clusters\<close>\<close>

definition assign_clusters :: "sink \<Rightarrow> sink" where
  "assign_clusters s =
     s\<lparr>phenotypes := map (\<lambda>e. (fst e, (snd e)\<lparr>
            p_cluster_id := Some (p_category (snd e)),
            p_cluster_size := Some (length (filter (\<lambda>e'. p_category (snd e') = p_category (snd e))
                                              (phenotypes s)))\<rparr>))
          (phenotypes s)\<rparr>"

text \<open>
  \<^verbatim>\<open>MATCH (p1:Phenotype)-[r:ASSOCIATED_WITH]->(p2:Phenotype) WHERE p1.cluster_id <> p2.cluster_id\<close>:
  a comparison with an unset property is not true.
\<close>

definition cross_cluster_strength :: "sink \<Rightarrow> sink" where
  "cross_cluster_strength s =
     s\<lparr>associated_with := map (\<lambda>r.
          (case (map_of (phenotypes s) (fst (fst r)), map_of (phenotypes s) (snd (fst r))) of
             (Some n1, Some n2) \<Rightarrow>
               (case (p_cluster_id n1, p_cluster_id n2, p_cluster_size n1, p_cluster_size n2) of
                  (Some c1, Some c2, Some z1, Some z2) \<Rightarrow>
                    if c1 \<noteq> c2
                    then (fst r, (snd r)\<lparr>aw_cross_cluster := Some True,
                            aw_cluster_connection_strength :=
                              Some (real (aw_co_occurrence_count (snd r)) * 1.0 / real (z1 + z2))\<rparr>)
                    else r
                | _ \<Rightarrow> r)
           | _ \<Rightarrow> r))
        (associated_with s)\<rparr>"

definition create_symptom_clusters :: "sink \<Rightarrow> sink" where
  "create_symptom_clusters s = cross_cluster_strength (assign_clusters s)"

subsection \<open>\<^verbatim>\<open>GraphEnhancer.apply_graph_algorithms\<close>\<close>

text \<open>
  Each pass is \<^verbatim>\<open>apoc.periodic.iterate('MATCH (p:Phenotype) RETURN p', ...)\<close>: the inner
  statement runs once per Phenotype node \<open>p\<close>. An inner statement whose \<^verbatim>\<open>MATCH\<close>
  finds nothing has no row left, so its \<^verbatim>\<open>SET\<close> does not run and the property keeps
  its value.

  The rows of \<^verbatim>\<open>MATCH (p)-[r:ASSOCIATED_WITH]-(neighbor)\<close>: the pattern has no direction,
  so every relationship with \<open>p\<close> at one end gives a row, holding the other end.
  \<^verbatim>\<open>ASSOCIATED_WITH\<close> relationships are only created by the mining statement, under
  \<^verbatim>\<open>WHERE p1 <> p2\<close>, so none is a loop.
\<close>

definition assoc_rows :: "sink \<Rightarrow> string \<Rightarrow> string list" where
  "assoc_rows s p =
     concat (map (\<lambda>r. if fst (fst r) = p then [snd (fst r)]
                       else if snd (fst r) = p then [fst (fst r)] else [])
               (associated_with s))"

definition on_phenotypes :: "(string \<Rightarrow> phenotype_node \<Rightarrow> phenotype_node) \<Rightarrow> sink \<Rightarrow> sink" where
  "on_phenotypes f s = s\<lparr>phenotypes := map (\<lambda>e. (fst e, f (fst e) (snd e))) (phenotypes s)\<rparr>"

text \<open>\<^verbatim>\<open>MATCH (p)<-[r:HAS_PHENOTYPE]-() WITH p, COUNT(r) as degree SET p.degree_centrality = degree\<close>.\<close>

definition degree_centrality :: "sink \<Rightarrow> sink" where
  "degree_centrality s =
     on_phenotypes (\<lambda>p n. if total_occurrences s p = 0 then n
                           else n\<lparr>p_degree_centrality := Some (total_occurrences s p)\<rparr>) s"

text \<open>
  \<^verbatim>\<open>OPTIONAL MATCH path=(p)-[:ASSOCIATED_WITH*..3]-(other:Phenotype)\<close>: the end nodes of
  the paths of one to three relationships from \<open>p\<close>, in either direction, that use no
  relationship twice; \<^verbatim>\<open>COUNT(DISTINCT other)\<close> of them, 0 when there is none.
\<close>

fun path_ends :: "nat \<Rightarrow> (string \<times> string) list \<Rightarrow> (string \<times> string) list \<Rightarrow> string \<Rightarrow> string list" where
  "path_ends 0 E used x = []"
| "path_ends (Suc n) E used x =
     concat (map (\<lambda>e. if e \<in> set used then []
                       else if fst e = x then snd e # path_ends n E (e # used) (snd e)
                       else if snd e = x then fst e # path_ends n E (e # used) (fst e)
                       else []) E)"

definition betweenness_score :: "sink \<Rightarrow> sink" where
  "betweenness_score s =
     on_phenotypes (\<lambda>p n. n\<lparr>p_betweenness_score :=
        Some (length (remdups (filter (has_key (phenotypes s))
                (path_ends 3 (map fst (associated_with s)) [] p))))\<rparr>) s"

text \<open>
  \<^verbatim>\<open>MATCH (p)-[r:ASSOCIATED_WITH]-() WITH p, COUNT(r) as connections
  SET p.is_hub = CASE WHEN connections > 10 THEN true ELSE false END\<close>.
\<close>

definition identify_hubs :: "sink \<Rightarrow> sink" where
  "identify_hubs s =
     on_phenotypes (\<lambda>p n. if assoc_rows s p = [] then n
                           else n\<lparr>p_is_hub := Some (length (assoc_rows s p) > 10)\<rparr>) s"

text \<open>
  The clustering coefficient. \<open>neighbors\<close> is \<^verbatim>\<open>COLLECT(neighbor)\<close> and \<open>degree\<close> its
  length. The rows of
  \<^verbatim>\<open>MATCH (n1:Phenotype)-[:ASSOCIATED_WITH]-(n2:Phenotype)
  WHERE n1 IN neighbors AND n2 IN neighbors AND n1 <> n2\<close>:
  the pattern has no direction, so every relationship is matched in both orientations.
  \<^verbatim>\<open>COUNT(*)\<close> of these rows is \<open>triangles\<close>; without a row the \<^verbatim>\<open>SET\<close> does not run.
\<close>

definition triangle_rows :: "sink \<Rightarrow> string list \<Rightarrow> (string \<times> string) list" where
  "triangle_rows s neighbors =
     filter (\<lambda>m. has_key (phenotypes s) (fst m) \<and> has_key (phenotypes s) (snd m) \<and>
                  fst m \<in> set neighbors \<and> snd m \<in> set neighbors \<and> fst m \<noteq> snd m)
       (concat (map (\<lambda>r. [(fst (fst r), snd (fst r)), (snd (fst r), fst (fst r))])
                  (associated_with s)))"

definition cluster_coefficient :: "nat \<Rightarrow> nat \<Rightarrow> real" where
  "cluster_coefficient degree triangles =
     (if degree \<le> 1 then 0 else (2.0 * real triangles) / real (degree * (degree - 1)))"

definition clustering_coefficients :: "sink \<Rightarrow> sink" where
  "clustering_coefficients s =
     on_phenotypes (\<lambda>p n.
        if assoc_rows s p = [] \<or> triangle_rows s (assoc_rows s p) = [] then n
        else n\<lparr>p_cluster_coefficient :=
                 Some (cluster_coefficient (length (assoc_rows s p))
                         (length (triangle_rows s (assoc_rows s p))))\<rparr>) s"

definition apply_graph_algorithms :: "sink \<Rightarrow> sink" where
  "apply_graph_algorithms s =
     clustering_coefficients (identify_hubs (betweenness_score (degree_centrality s)))"

subsection \<open>The module-level function \<^verbatim>\<open>add_phenotype_metrics\<close>\<close>

text \<open>
  \<^verbatim>\<open>OPTIONAL MATCH (p)-[ia:IS_A*]->() ... COUNT(DISTINCT ia)\<close> counts the paths of one
  or more \<^verbatim>\<open>IS_A\<close> relationships from \<open>p\<close> upwards that use no relationship twice; a
  path is no longer than the number of relationships, which bounds the recursion.
\<close>

fun is_a_paths :: "nat \<Rightarrow> (string \<times> string) list \<Rightarrow> (string \<times> string) list \<Rightarrow> string \<Rightarrow> nat" where
  "is_a_paths 0 E used x = 0"
| "is_a_paths (Suc n) E used x =
     sum_list (map (\<lambda>e. if e \<notin> set used \<and> fst e = x
                         then 1 + is_a_paths n E (e # used) (snd e) else 0) E)"

text \<open>
  The inner statement: the first two \<^verbatim>\<open>MATCH\<close> clauses leave no row for a node without
  a \<^verbatim>\<open>HAS_PHENOTYPE\<close> or without an \<^verbatim>\<open>ASSOCIATED_WITH\<close> relationship.
\<close>

definition add_phenotype_metrics :: "sink \<Rightarrow> sink" where
  "add_phenotype_metrics s =
     on_phenotypes (\<lambda>p n.
        if total_occurrences s p = 0 \<or> assoc_rows s p = [] then n
        else n\<lparr>p_prevalence := Some (total_occurrences s p),
               p_connectivity := Some (length (assoc_rows s p)),
               p_specificity := Some (if total_occurrences s p > 0
                                      then 1.0 / real (total_occurrences s p) else 0),
               p_hierarchical_level :=
                 Some (is_a_paths (length (is_a s)) (map fst (is_a s)) [] p),
               p_leaf_node := Some (\<not> list_ex (\<lambda>r. snd (fst r) = p) (is_a s))\<rparr>) s"

section \<open>The pipeline (knowledge_graph_builder.py)\<close>

text \<open>
  The class body of \<^verbatim>\<open>GraphEnhancer\<close> defines \<^verbatim>\<open>__init__\<close> and three methods;
  \<^verbatim>\<open>def add_phenotype_metrics(self)\<close> stands at column 0 after the class and is a
  function of the module. Calling a method on the instance looks the name up in the
  class and raises \<^verbatim>\<open>AttributeError\<close> when it is not there. The methods do not raise
  in the model: the store accepts every statement.
\<close>

definition GraphEnhancer_methods :: "(string \<times> ((nat \<Rightarrow> nat) \<Rightarrow> sink \<Rightarrow> sink)) list" where
  "GraphEnhancer_methods =
     [(''create_symptom_relationships'', create_symptom_relationships),
      (''create_symptom_clusters'', \<lambda>clock. create_symptom_clusters),
      (''apply_graph_algorithms'', \<lambda>clock. apply_graph_algorithms)]"

definition graph_enhancer_functions :: "(string \<times> (sink \<Rightarrow> sink)) list" where
  "graph_enhancer_functions = [(''add_phenotype_metrics'', add_phenotype_metrics)]"

definition call_method :: "string \<Rightarrow> (nat \<Rightarrow> nat) \<Rightarrow> sink \<Rightarrow> py_error + sink" where
  "call_method name clock s =
     (case map_of GraphEnhancer_methods name of
        None \<Rightarrow> Inl AttributeError
      | Some m \<Rightarrow> Inr (m clock s))"

definition and_then :: "py_error + 'a \<Rightarrow> ('a \<Rightarrow> py_error + 'b) \<Rightarrow> py_error + 'b" where
  "and_then r f = (case r of Inl e \<Rightarrow> Inl e | Inr x \<Rightarrow> f x)"

record clocks =
  term_clock :: "nat \<Rightarrow> nat \<times> nat"
  annotation_clock :: "nat \<Rightarrow> nat"
  mining_clock :: "nat \<Rightarrow> nat"

text \<open>
  \<^verbatim>\<open>main\<close>: the database is cleared, then terms, annotations and the four calls on the
  \<^verbatim>\<open>GraphEnhancer\<close> instance. \<^verbatim>\<open>Config.BATCH_SIZE\<close> (config.py is not part of the
  sources) is the parameter \<open>batch_size\<close>; the two files are given by their lines.
\<close>

definition main :: "nat \<Rightarrow> clocks \<Rightarrow> string list \<Rightarrow> string list \<Rightarrow> py_error + sink" where
  "main batch_size ck obo hpoa =
     and_then (process_obo_file batch_size (term_clock ck) obo empty_sink) (\<lambda>s1.
     and_then (process_phenotype_annotations batch_size (annotation_clock ck) hpoa s1) (\<lambda>s2.
     and_then (call_method ''create_symptom_relationships'' (mining_clock ck) s2) (\<lambda>s3.
     and_then (call_method ''create_symptom_clusters'' (mining_clock ck) s3) (\<lambda>s4.
     and_then (call_method ''apply_graph_algorithms'' (mining_clock ck) s4) (\<lambda>s5.
     call_method ''add_phenotype_metrics'' (mining_clock ck) s5)))))"

section \<open>Notions of the specification used in the statements\<close>

text \<open>
  The diseases shared by two phenotypes: the Disease nodes with a \<^verbatim>\<open>HAS_PHENOTYPE\<close>
  relationship to both. The relationships between Phenotype nodes that touch a node.
\<close>

definition shared_diseases :: "sink \<Rightarrow> string \<Rightarrow> string \<Rightarrow> string set" where
  "shared_diseases s p1 p2 =
     {d. has_key (diseases s) d \<and> has_key (has_phenotype s) (d, p1) \<and>
         has_key (has_phenotype s) (d, p2)}"

definition incident :: "sink \<Rightarrow> string \<Rightarrow> (string \<times> string) set" where
  "incident s p = {k \<in> fst ` set (associated_with s). fst k = p \<or> snd k = p}"

text \<open>The writes of the mining statements, page by page.\<close>

definition aw_ops :: "nat \<Rightarrow> ((string \<times> string) \<times> nat \<times> nat) list \<Rightarrow>
    ((string \<times> string) \<times> (associated_with_edge \<Rightarrow> associated_with_edge)) list" where
  "aw_ops now rows =
     map (\<lambda>row. (fst row, set_associated_with now (fst (snd row)) (snd (snd row)))) rows"

fun all_aw_ops :: "(nat \<Rightarrow> nat) \<Rightarrow> nat \<Rightarrow> string list list \<Rightarrow> sink \<Rightarrow>
    ((string \<times> string) \<times> (associated_with_edge \<Rightarrow> associated_with_edge)) list" where
  "all_aw_ops clock i [] s = []"
| "all_aw_ops clock i (page # pages) s =
     aw_ops (clock i) (concat (map (anchor_rows s) page)) @ all_aw_ops clock (Suc i) pages s"

section \<open>Example stores and inputs\<close>

text \<open>
  Concrete stores and files for the scenarios of the specification. Nodes and
  relationships carry blank properties where the scenario does not fix them.
\<close>

definition clock0 :: "nat \<Rightarrow> nat" where
  "clock0 i = 0"

definition clocks0 :: clocks where
  "clocks0 = \<lparr>term_clock = (\<lambda>i. (0, 0)), annotation_clock = clock0, mining_clock = clock0\<rparr>"

text \<open>
  Diseases \<^verbatim>\<open>D1\<close> to \<^verbatim>\<open>D6\<close> have the phenotypes \<^verbatim>\<open>A\<close> and \<^verbatim>\<open>B\<close>, disease \<^verbatim>\<open>D7\<close> has
  \<^verbatim>\<open>A\<close> and \<^verbatim>\<open>C\<close>.
\<close>

definition mining_example :: sink where
  "mining_example = empty_sink\<lparr>
     phenotypes := map (\<lambda>p. (p, blank_phenotype)) [''A'', ''B'', ''C''],
     diseases := map (\<lambda>d. (d, blank_disease)) [''D1'', ''D2'', ''D3'', ''D4'', ''D5'', ''D6'', ''D7''],
     has_phenotype := map (\<lambda>k. (k, blank_has_phenotype))
       [(''D1'', ''A''), (''D1'', ''B''), (''D2'', ''A''), (''D2'', ''B''), (''D3'', ''A''),
        (''D3'', ''B''), (''D4'', ''A''), (''D4'', ''B''), (''D5'', ''A''), (''D5'', ''B''),
        (''D6'', ''A''), (''D6'', ''B''), (''D7'', ''A''), (''D7'', ''C'')]\<rparr>"

text \<open>The same store with one more phenotype, \<^verbatim>\<open>E\<close>, that no disease has.\<close>

definition metrics_example :: sink where
  "metrics_example = mining_example\<lparr>
     phenotypes := map (\<lambda>p. (p, blank_phenotype)) [''A'', ''B'', ''C'', ''E'']\<rparr>"

text \<open>
  \<^verbatim>\<open>H11\<close> has eleven \<^verbatim>\<open>ASSOCIATED_WITH\<close> relationships, \<^verbatim>\<open>H10\<close> has ten.
\<close>

definition hub_example :: sink where
  "hub_example = empty_sink\<lparr>
     phenotypes := map (\<lambda>p. (p, blank_phenotype))
       [''H10'', ''H11'', ''N01'', ''N02'', ''N03'', ''N04'', ''N05'', ''N06'', ''N07'', ''N08'',
        ''N09'', ''N10'', ''N11''],
     associated_with := map (\<lambda>k. (k, blank_associated_with))
       (map (Pair ''H11'') [''N01'', ''N02'', ''N03'', ''N04'', ''N05'', ''N06'', ''N07'', ''N08'',
          ''N09'', ''N10'', ''N11''] @
        map (Pair ''H10'') [''N01'', ''N02'', ''N03'', ''N04'', ''N05'', ''N06'', ''N07'', ''N08'',
          ''N09'', ''N10''])\<rparr>"

text \<open>
  \<^verbatim>\<open>P\<close> has the two neighbours \<^verbatim>\<open>A\<close> and \<^verbatim>\<open>B\<close>, which are connected; \<^verbatim>\<open>Y\<close> and
  \<^verbatim>\<open>Z\<close> have one neighbour each; \<^verbatim>\<open>W\<close> has none.
\<close>

definition triangle_example :: sink where
  "triangle_example = empty_sink\<lparr>
     phenotypes := map (\<lambda>p. (p, blank_phenotype)) [''P'', ''A'', ''B'', ''Y'', ''Z'', ''W''],
     associated_with := map (\<lambda>k. (k, blank_associated_with))
       [(''P'', ''A''), (''P'', ''B''), (''A'', ''B''), (''Y'', ''Z'')]\<rparr>"

text \<open>
  The same graph as the mining statement builds it, with a relationship in each
  direction between associated phenotypes.
\<close>

definition mutual_triangle_example :: sink where
  "mutual_triangle_example = empty_sink\<lparr>
     phenotypes := map (\<lambda>p. (p, blank_phenotype)) [''P'', ''A'', ''B''],
     associated_with := map (\<lambda>k. (k, blank_associated_with))
       [(''P'', ''A''), (''A'', ''P''), (''P'', ''B''), (''B'', ''P''), (''A'', ''B''),
        (''B'', ''A'')]\<rparr>"

text \<open>An ontology file of one term and an annotation file of one row for it.\<close>

definition obo_example :: "string list" where
  "obo_example = [''[Term]'', ''id: HP:0000001'', ''name: All'', ''[Term]'']"

definition hpoa_example :: "string list" where
  "hpoa_example =
     [''database_id'' @ [CHR 0x09] @ ''disease_name'' @ [CHR 0x09] @ ''qualifier'' @ [CHR 0x09] @ ''hpo_id'',
      ''OMIM:1'' @ [CHR 0x09] @ ''Disease one'' @ [CHR 0x09, CHR 0x09] @ ''HP:0000001'']"


text \<open>
  The two ingestion steps of \<^verbatim>\<open>main\<close> on a given store.
\<close>

definition ingest :: "nat \<Rightarrow> clocks \<Rightarrow> string list \<Rightarrow> string list \<Rightarrow> sink \<Rightarrow> py_error + sink" where
  "ingest batch_size ck obo hpoa s =
     and_then (process_obo_file batch_size (term_clock ck) obo s)
       (process_phenotype_annotations batch_size (annotation_clock ck) hpoa)"



section \<open>The batches and the writes of an ingestion run\<close>













chapter \<open>Properties\<close>

section \<open>Properties of the category classifier\<close>

lemma first_range_least:
  "i < length rules \<Longrightarrow> in_rule (rules ! i) x \<Longrightarrow>
   \<exists>j\<le>i. in_rule (rules ! j) x \<and> (\<forall>k<j. \<not> in_rule (rules ! k) x) \<and>
     first_range rules x = snd (snd (rules ! j))"
proof (induction rules arbitrary: i)
  case Nil
  then show ?case by simp
next
  case (Cons r rules)
  obtain s e c where r: "r = (s, e, c)" by (cases r)
  show ?case
  proof (cases "in_rule r x")
    case True
    then have "in_rule ((r # rules) ! 0) x \<and> (\<forall>k<0. \<not> in_rule ((r # rules) ! k) x) \<and>
      first_range (r # rules) x = snd (snd ((r # rules) ! 0))"
      by (simp add: r in_rule_def)
    then show ?thesis by blast
  next
    case False
    with Cons.prems obtain i' where i': "i = Suc i'" by (cases i) auto
    with Cons.prems have "i' < length rules" "in_rule (rules ! i') x" by auto
    from Cons.IH[OF this] obtain j where j: "j \<le> i'" "in_rule (rules ! j) x"
      "\<forall>k<j. \<not> in_rule (rules ! k) x" "first_range rules x = snd (snd (rules ! j))" by blast
    have "\<forall>k<Suc j. \<not> in_rule ((r # rules) ! k) x"
    proof (intro allI impI)
      fix k assume "k < Suc j"
      then show "\<not> in_rule ((r # rules) ! k) x" using False j(3) by (cases k) auto
    qed
    moreover have "first_range (r # rules) x = snd (snd ((r # rules) ! Suc j))"
      using False j(4) by (auto simp add: r in_rule_def)
    ultimately show ?thesis using j(1,2) i' by (intro exI[of _ "Suc j"]) auto
  qed
qed

lemma sandwich_Cons:
  fixes a :: char
  assumes "a # s \<le> h" and "h \<le> a # e"
  shows "\<exists>h'. h = a # h' \<and> s \<le> h' \<and> h' \<le> e"
proof (cases h)
  case Nil
  with assms show ?thesis by simp
next
  case (Cons b h')
  with assms have 1: "a < b \<or> a = b \<and> s \<le> h'" and 2: "b < a \<or> b = a \<and> h' \<le> e" by simp_all
  from 1 2 have "a = b" by (meson order.asym less_irrefl)
  with 1 2 Cons show ?thesis by auto
qed

lemma hp_prefix_range:
  assumes "CHR ''H'' # CHR ''P'' # CHR '':'' # s \<le> h" and "h \<le> CHR ''H'' # CHR ''P'' # CHR '':'' # e"
  shows "CHR '':'' \<in> set h"
proof -
  from sandwich_Cons[OF assms] obtain h1 where h1: "h = CHR ''H'' # h1" "CHR ''P'' # CHR '':'' # s \<le> h1" "h1 \<le> CHR ''P'' # CHR '':'' # e" by blast
  from sandwich_Cons[OF h1(2,3)] obtain h2 where h2: "h1 = CHR ''P'' # h2" "CHR '':'' # s \<le> h2" "h2 \<le> CHR '':'' # e" by blast
  from sandwich_Cons[OF h2(2,3)] obtain h3 where "h2 = CHR '':'' # h3" by blast
  with h1 h2 show ?thesis by simp
qed

lemma categories_ordered: "\<forall>r\<in>set categories. fst r \<le> fst (snd r)"
  unfolding categories_def by code_simp

lemma categories_lowest: "\<forall>r\<in>set categories. ''HP:0000005'' \<le> fst r"
  unfolding categories_def by code_simp

lemma first_range_num_bounds:
  "\<forall>r\<in>set categories_graph. first_range_num categories_graph (fst (fst r)) = snd r \<and>
      first_range_num categories_graph (snd (fst r)) = snd r"
  by (simp add: categories_graph_def)

lemma first_range_num_below: "first_range_num categories_graph (- 1) = ''Other''"
  by (simp add: categories_graph_def)

lemma take3_hp: "take 3 s = ''HP:'' \<Longrightarrow> s = CHR ''H'' # CHR ''P'' # CHR '':'' # drop 3 s"
  by (metis append_take_drop_id append_Cons append_Nil)

lemma hp_range_colon:
  assumes "take 3 s = ''HP:''" "take 3 e = ''HP:''" "s \<le> h" "h \<le> e"
  shows "CHR '':'' \<in> set h"
  using hp_prefix_range[of "drop 3 s" h "drop 3 e"] take3_hp[OF assms(1)] take3_hp[OF assms(2)] assms(3,4)
  by simp

lemma first_range_no_colon:
  "\<forall>r\<in>set rules. take 3 (fst r) = ''HP:'' \<and> take 3 (fst (snd r)) = ''HP:'' \<Longrightarrow>
   CHR '':'' \<notin> set h \<Longrightarrow> first_range rules h = ''Other''"
proof (induction rules)
  case Nil
  then show ?case by simp
next
  case (Cons r rules)
  obtain s e c where r: "r = (s, e, c)" by (cases r)
  from Cons.prems r have "take 3 s = ''HP:''" "take 3 e = ''HP:''" by auto
  with Cons.prems(2) have "\<not> (s \<le> h \<and> h \<le> e)" using hp_range_colon by blast
  moreover have "first_range rules h = ''Other''" using Cons by simp
  ultimately show ?case unfolding r by auto
qed

lemma categories_hp: "\<forall>r\<in>set categories. take 3 (fst r) = ''HP:'' \<and> take 3 (fst (snd r)) = ''HP:''"
  unfolding categories_def by code_simp

lemma no_colon_other: "CHR '':'' \<notin> set h \<Longrightarrow> first_range categories h = ''Other''"
  using first_range_no_colon[OF categories_hp] by simp

lemma category_num_parsed:
  "CHR '':'' \<in> set h \<Longrightarrow> py_int (split_colon_1 h) = Inr n \<Longrightarrow>
   determine_category_num h = first_range_num categories_graph n"
  by (simp add: determine_category_num_def determine_category_num_try_def)

lemma boundary_in_rule:
  assumes "i < length categories" and "x = fst (categories ! i) \<or> x = fst (snd (categories ! i))"
  shows "in_rule (categories ! i) x"
proof -
  from assms(1) have "categories ! i \<in> set categories" by simp
  with categories_ordered have "fst (categories ! i) \<le> fst (snd (categories ! i))" by blast
  with assms(2) show ?thesis by (auto simp: in_rule_def)
qed

lemma in_rule_nonempty:
  assumes "j < length categories" and "in_rule (categories ! j) x"
  shows "x \<noteq> []"
proof -
  from assms(1) have "categories ! j \<in> set categories" by simp
  with categories_lowest have "''HP:0000005'' \<le> fst (categories ! j)" by blast
  with assms(2) have "''HP:0000005'' \<le> x" by (auto simp: in_rule_def)
  then show ?thesis by auto
qed

lemma first_range_first:
  assumes "i < length rules" and "in_rule (rules ! i) x" and "\<forall>k<i. \<not> in_rule (rules ! k) x"
  shows "first_range rules x = snd (snd (rules ! i))"
proof -
  from first_range_least[OF assms(1,2)] obtain j where j: "j \<le> i" "in_rule (rules ! j) x"
    "first_range rules x = snd (snd (rules ! j))" by blast
  from j(1,2) assms(3) have "j = i" by (metis le_neq_implies_less)
  with j(3) show ?thesis by simp
qed

lemma first_range_none:
  "\<forall>r\<in>set rules. \<not> in_rule r x \<Longrightarrow> first_range rules x = ''Other''"
proof (induction rules)
  case Nil
  then show ?case by simp
next
  case (Cons r rules)
  obtain s e c where r: "r = (s, e, c)" by (cases r)
  from Cons.prems have "\<not> (s \<le> x \<and> x \<le> e)" by (simp add: r in_rule_def)
  moreover from Cons have "first_range rules x = ''Other''" by simp
  ultimately show ?case unfolding r by auto
qed

text \<open>
  Claim C7 as stated fails for the string ranges of phenotype.py: \<^verbatim>\<open>HP:0000118\<close> and
  \<^verbatim>\<open>HP:0001416\<close> are the start and the end of the rule \<^verbatim>\<open>Morphology\<close>, and both are
  classified \<^verbatim>\<open>Inheritance\<close>, the category of the earlier rule
  \<^verbatim>\<open>HP:0000005\<close> to \<^verbatim>\<open>HP:0001999\<close>.
\<close>

theorem category_boundaries_counterexample:
  "(''HP:0000118'', ''HP:0001416'', ''Morphology'') \<in> set categories
   \<and> determine_category (Str ''HP:0000118'') = Inr ''Inheritance''
   \<and> determine_category (Str ''HP:0001416'') = Inr ''Inheritance''"
  by (simp add: categories_def)

text \<open>
  Claim C7, as the code has it. The classifier of phenotype.py sends the identifier at
  the start or at the end of rule \<open>i\<close> to the category of the first rule whose range
  holds it (rule \<open>j \<le> i\<close>); this is the category of rule \<open>i\<close> itself when no earlier
  range holds the identifier. The classifier of graph.py, whose ranges do not overlap,
  sends an identifier whose number is the start or the end of a rule to that rule's
  category. The identifier one below the lowest configured start goes to \<^verbatim>\<open>'Other'\<close>:
  \<^verbatim>\<open>HP:0000004\<close> for phenotype.py, whose lowest start is \<^verbatim>\<open>HP:0000005\<close>, and the
  number \<open>-1\<close> for graph.py, whose lowest start is \<open>0\<close>.
\<close>

theorem category_boundaries:
  assumes "i < length categories"
    and "x = fst (categories ! i) \<or> x = fst (snd (categories ! i))"
    and "r \<in> set categories_graph"
    and "CHR '':'' \<in> set h"
    and "py_int (split_colon_1 h) = Inr (fst (fst r)) \<or> py_int (split_colon_1 h) = Inr (snd (fst r))"
    and "CHR '':'' \<in> set h'"
    and "py_int (split_colon_1 h') = Inr (- 1)"
  shows "(\<exists>j\<le>i. in_rule (categories ! j) x \<and> (\<forall>k<j. \<not> in_rule (categories ! k) x) \<and>
            determine_category (Str x) = Inr (snd (snd (categories ! j))))
       \<and> ((\<forall>k<i. \<not> in_rule (categories ! k) x) \<longrightarrow>
            determine_category (Str x) = Inr (snd (snd (categories ! i))))
       \<and> (\<forall>q\<in>set categories. ''HP:0000005'' \<le> fst q)
       \<and> determine_category (Str ''HP:0000004'') = Inr ''Other''
       \<and> determine_category_num h = snd r
       \<and> (\<forall>q\<in>set categories_graph. 0 \<le> fst (fst q))
       \<and> determine_category_num h' = ''Other''"
proof -
  have inr: "in_rule (categories ! i) x" using boundary_in_rule[OF assms(1,2)] .
  from first_range_least[OF assms(1) inr] obtain j where j: "j \<le> i" "in_rule (categories ! j) x"
    "\<forall>k<j. \<not> in_rule (categories ! k) x" "first_range categories x = snd (snd (categories ! j))"
    by blast
  have ne: "x \<noteq> []" using in_rule_nonempty[OF assms(1) inr] .
  then have "determine_category (Str x) = Inr (snd (snd (categories ! j)))" using j(4) by simp
  with j have 1: "\<exists>j\<le>i. in_rule (categories ! j) x \<and> (\<forall>k<j. \<not> in_rule (categories ! k) x) \<and>
            determine_category (Str x) = Inr (snd (snd (categories ! j)))" by blast
  have 0: "(\<forall>k<i. \<not> in_rule (categories ! k) x) \<longrightarrow>
            determine_category (Str x) = Inr (snd (snd (categories ! i)))"
    using first_range_first[OF assms(1) inr] ne by simp
  have 2: "determine_category (Str ''HP:0000004'') = Inr ''Other''"
    by (simp add: categories_def)
  have 3: "determine_category_num h = snd r"
    using assms(3,4,5) first_range_num_bounds category_num_parsed by metis
  have 4: "\<forall>q\<in>set categories_graph. 0 \<le> fst (fst q)" by (simp add: categories_graph_def)
  have 5: "determine_category_num h' = ''Other''"
    using category_num_parsed[OF assms(6,7)] first_range_num_below by simp
  from 0 1 2 3 4 5 categories_lowest show ?thesis by blast
qed

text \<open>
  Claim C7 at the end of the \<^verbatim>\<open>Limbs\<close> rule (index 10), which no earlier range holds,
  at the start of the \<^verbatim>\<open>Neurological\<close> rule and at the identifier \<^verbatim>\<open>HP:-1\<close>.
\<close>

theorem category_boundaries_witness:
  "determine_category (Str ''HP:0002060'') = Inr ''Limbs''
   \<and> determine_category (Str ''HP:0000004'') = Inr ''Other''
   \<and> determine_category_num ''HP:0002000'' = ''Neurological''
   \<and> determine_category_num ''HP:-1'' = ''Other''"
proof -
  have a1: "10 < length categories" by (simp add: categories_def)
  have a2: "''HP:0002060'' = fst (categories ! 10) \<or> ''HP:0002060'' = fst (snd (categories ! 10))"
    by (simp add: categories_def)
  have a3: "((2000, 2999), ''Neurological'') \<in> set categories_graph" by (simp add: categories_graph_def)
  have a4: "CHR '':'' \<in> set ''HP:0002000''" by simp
  have a5: "py_int (split_colon_1 ''HP:0002000'') = Inr (fst (fst ((2000 :: int, 2999 :: int), ''Neurological'')))
      \<or> py_int (split_colon_1 ''HP:0002000'') = Inr (snd (fst ((2000 :: int, 2999 :: int), ''Neurological'')))"
    by code_simp
  have a6: "CHR '':'' \<in> set ''HP:-1''" by simp
  have a7: "py_int (split_colon_1 ''HP:-1'') = Inr (- 1)" by code_simp
  have "\<forall>q\<in>set (take 10 categories). \<not> in_rule q ''HP:0002060''"
    by (simp add: categories_def in_rule_def)
  moreover have "categories ! k \<in> set (take 10 categories)" if "k < 10" for k
    using that a1 by (metis length_take min.absorb2 less_imp_le nth_mem nth_take)
  ultimately have earlier: "\<forall>k<10. \<not> in_rule (categories ! k) ''HP:0002060''" by blast
  have limbs: "snd (snd (categories ! 10)) = ''Limbs''" by (simp add: categories_def)
  from category_boundaries[OF a1 a2 a3 a4 a5 a6 a7, unfolded snd_conv] earlier limbs
  show ?thesis by simp
qed

lemma py_int_error: "py_int s = Inl e \<Longrightarrow> e = ValueError"
  by (auto simp: py_int_def Let_def split: list.splits option.splits if_splits)

text \<open>
  Claim C10, as the code has it. On every string both classifiers return a label and do
  not raise. phenotype.py compares the identifier as a string: an identifier without the
  colon separator (\<open>h1\<close>) and any identifier that no configured range holds (\<open>h4\<close>) get
  \<^verbatim>\<open>'Other'\<close>; any other identifier (\<open>h3\<close>), numeric suffix or not, gets the category
  of the first range that holds it. graph.py answers \<^verbatim>\<open>'Other'\<close> for an identifier
  whose field after the colon is not an integer literal (\<open>h2\<close>), and reads an identifier
  without the colon as the number 0, which is \<^verbatim>\<open>'Morphology'\<close>.
\<close>

theorem classifier_malformed:
  assumes "CHR '':'' \<notin> set h1"
    and "CHR '':'' \<in> set h2" and "py_int (split_colon_1 h2) = Inl e"
    and "i < length categories" and "in_rule (categories ! i) h3"
    and "\<forall>k<i. \<not> in_rule (categories ! k) h3"
    and "\<forall>r\<in>set categories. \<not> in_rule r h4"
  shows "(\<exists>l. determine_category (Str h) = Inr l)
       \<and> determine_category (Str h1) = Inr ''Other''
       \<and> determine_category_num h1 = ''Morphology''
       \<and> determine_category_num h2 = ''Other''
       \<and> determine_category (Str h3) = Inr (snd (snd (categories ! i)))
       \<and> determine_category (Str h4) = Inr ''Other''"
proof -
  have 1: "\<exists>l. determine_category (Str h) = Inr l" by simp
  have 2: "determine_category (Str h1) = Inr ''Other''" using no_colon_other[OF assms(1)] by simp
  have 3: "determine_category_num h1 = ''Morphology''"
    using assms(1) by (simp add: determine_category_num_def determine_category_num_try_def categories_graph_def)
  have 4: "determine_category_num h2 = ''Other''"
    using assms(2,3) by (simp add: determine_category_num_def determine_category_num_try_def)
  have "h3 \<noteq> []" using in_rule_nonempty[OF assms(4,5)] .
  then have 5: "determine_category (Str h3) = Inr (snd (snd (categories ! i)))"
    using first_range_first[OF assms(4,5,6)] by simp
  have 6: "determine_category (Str h4) = Inr ''Other''"
    using first_range_none[OF assms(7)] by simp
  from 1 2 3 4 5 6 show ?thesis by blast
qed

text \<open>
  Claim C10 at \<^verbatim>\<open>HP0000118\<close> (no separator), \<^verbatim>\<open>HP:0000abc\<close> (suffix not a number,
  held by the first range) and \<^verbatim>\<open>HP:0000004\<close> (held by no range).
\<close>

theorem classifier_malformed_witness:
  "determine_category (Str ''HP0000118'') = Inr ''Other''
   \<and> determine_category_num ''HP0000118'' = ''Morphology''
   \<and> determine_category_num ''HP:0000abc'' = ''Other''
   \<and> determine_category (Str ''HP:0000abc'') = Inr ''Inheritance''
   \<and> determine_category (Str ''HP:0000004'') = Inr ''Other''"
proof -
  have a1: "CHR '':'' \<notin> set ''HP0000118''" by simp
  have a2: "CHR '':'' \<in> set ''HP:0000abc''" by simp
  have a3: "py_int (split_colon_1 ''HP:0000abc'') = Inl ValueError" by code_simp
  have a4: "0 < length categories" by (simp add: categories_def)
  have a5: "in_rule (categories ! 0) ''HP:0000abc''" by (simp add: categories_def in_rule_def)
  have a6: "\<forall>k<0. \<not> in_rule (categories ! k) ''HP:0000abc''" by simp
  have a7: "\<forall>r\<in>set categories. \<not> in_rule r ''HP:0000004''"
    by (simp add: categories_def in_rule_def)
  have inh: "snd (snd (categories ! 0)) = ''Inheritance''" by (simp add: categories_def)
  from classifier_malformed[OF a1 a2 a3 a4 a5 a6 a7] inh show ?thesis by simp
qed

text \<open>
  Claim C10 as stated fails: the malformed \<^verbatim>\<open>HP:0000abc\<close> (non-numeric suffix) is
  classified \<^verbatim>\<open>'Inheritance'\<close> by phenotype.py, and the malformed \<^verbatim>\<open>HP0000118\<close>
  (no separator) is classified \<^verbatim>\<open>'Morphology'\<close> by graph.py.
\<close>

theorem classifier_malformed_counterexample:
  "py_int (split_colon_1 ''HP:0000abc'') = Inl ValueError
   \<and> determine_category (Str ''HP:0000abc'') = Inr ''Inheritance''
   \<and> CHR '':'' \<notin> set ''HP0000118''
   \<and> determine_category_num ''HP0000118'' = ''Morphology''"
  by code_simp

section \<open>Properties of merge statements\<close>

lemma upsert_keys:
  "map fst (upsert k d f al) = (if k \<in> fst ` set al then map fst al else map fst al @ [k])"
proof (induction al)
  case Nil
  then show ?case by simp
next
  case (Cons e al)
  obtain a b where e: "e = (a, b)" by (cases e)
  show ?case
  proof (cases "a = k")
    case True
    then show ?thesis by (simp add: e)
  next
    case False
    then show ?thesis using Cons.IH by (simp add: e)
  qed
qed

lemma upsert_key_set: "fst ` set (upsert k d f al) = insert k (fst ` set al)"
proof -
  have "set (map fst (upsert k d f al)) = insert k (set (map fst al))"
    unfolding upsert_keys by auto
  then show ?thesis by simp
qed


lemma has_key_iff: "has_key al k \<longleftrightarrow> k \<in> fst ` set al"
  by (simp add: has_key_def map_of_eq_None_iff)



lemma apply_ops_Nil [simp]: "apply_ops d [] al = al"
  by (simp add: apply_ops_def)

lemma apply_ops_Cons [simp]: "apply_ops d ((k, f) # ops) al = apply_ops d ops (upsert k d f al)"
  by (simp add: apply_ops_def)

lemma apply_ops_append: "apply_ops d (xs @ ys) al = apply_ops d ys (apply_ops d xs al)"
  by (simp add: apply_ops_def)

lemma apply_ops_key_set: "fst ` set (apply_ops d ops al) = fst ` set ops \<union> fst ` set al"
proof (induction ops arbitrary: al)
  case Nil
  then show ?case by simp
next
  case (Cons op ops)
  obtain k f where op: "op = (k, f)" by (cases op)
  show ?case unfolding op by (simp add: Cons.IH upsert_key_set)
qed





lemma fold_upsert_ops:
  "fold (\<lambda>x. upsert (kf x) d (g x)) xs al = apply_ops d (map (\<lambda>x. (kf x, g x)) xs) al"
  by (induction xs arbitrary: al) simp_all

lemma fold_upsert_if_ops:
  "fold (\<lambda>x es. if P x then upsert (kf x) d (g x) es else es) xs al
     = apply_ops d (map (\<lambda>x. (kf x, g x)) (filter P xs)) al"
  by (induction xs arbitrary: al) simp_all





lemma merge_nodes_ops:
  "merge_nodes now ns s = s\<lparr>phenotypes := apply_ops blank_phenotype (node_ops now ns) (phenotypes s)\<rparr>"
  by (simp add: merge_nodes_def node_ops_def fold_upsert_ops)

lemma merge_is_a_ops:
  "merge_is_a now rels s =
     s\<lparr>is_a := apply_ops blank_is_a (is_a_ops now (has_key (phenotypes s)) rels) (is_a s)\<rparr>"
proof -
  have "(\<lambda>(c, p) es. if has_key (phenotypes s) c \<and> has_key (phenotypes s) p
            then upsert (c, p) blank_is_a (set_is_a now) es else es)
      = (\<lambda>r es. if has_key (phenotypes s) (fst r) \<and> has_key (phenotypes s) (snd r)
            then upsert r blank_is_a (set_is_a now) es else es)"
    by (auto simp: fun_eq_iff)
  then show ?thesis
    by (simp add: merge_is_a_def is_a_ops_def fold_upsert_if_ops[where kf="\<lambda>r. r" and g="\<lambda>r. set_is_a now"])
qed

lemma process_batch_ops:
  "process_batch now b s =
     s\<lparr>phenotypes := apply_ops blank_phenotype (node_ops (fst now) (node_items b)) (phenotypes s),
       is_a := apply_ops blank_is_a
          (is_a_ops (snd now)
             (has_key (apply_ops blank_phenotype (node_ops (fst now) (node_items b)) (phenotypes s)))
             (relationship_items b)) (is_a s)\<rparr>"
  by (simp add: process_batch_def Let_def merge_nodes_ops merge_is_a_ops node_ops_def is_a_ops_def)





lemma has_key_apply_ops:
  "has_key (apply_ops d ops al) = (\<lambda>k. k \<in> fst ` set ops \<or> has_key al k)"
  by (auto simp: fun_eq_iff has_key_iff apply_ops_key_set)





section \<open>Properties of term ingestion\<close>

lemma obo_lines_append:
  "obo_lines bs clock (xs @ ys) st =
     (case obo_lines bs clock xs st of Inl e \<Rightarrow> Inl e | Inr st' \<Rightarrow> obo_lines bs clock ys st')"
  by (induction xs arbitrary: st) (auto split: sum.splits)

lemma obo_lines_no_marker:
  "\<forall>l\<in>set tail. py_strip l \<noteq> ''[Term]'' \<Longrightarrow>
   \<exists>ct. obo_lines bs clock tail st = Inr (st\<lparr>current_term := ct\<rparr>)"
proof (induction tail arbitrary: st)
  case Nil
  have "st = st\<lparr>current_term := current_term st\<rparr>" by simp
  then show ?case by (metis obo_lines.simps(1))
next
  case (Cons l tail)
  then have l: "py_strip l \<noteq> ''[Term]''" by simp
  then have "obo_line bs clock l st = Inr (st\<lparr>current_term :=
      (if CHR '':'' \<in> set (py_strip l)
       then add_field (fst (key_value (py_strip l))) (snd (key_value (py_strip l))) (current_term st)
       else current_term st)\<rparr>)"
    by (simp add: obo_line_def Let_def)
  then obtain ct where 1: "obo_line bs clock l st = Inr (st\<lparr>current_term := ct\<rparr>)"
    by blast
  from Cons obtain ct' where "obo_lines bs clock tail (st\<lparr>current_term := ct\<rparr>) = Inr (st\<lparr>current_term := ct, current_term := ct'\<rparr>)"
    by (metis list.set_intros(2))
  with 1 show ?case by auto
qed

lemma after_last_marker_ignored:
  assumes "\<forall>l\<in>set tail. py_strip l \<noteq> ''[Term]''"
  shows "process_obo_file bs clock (lines @ tail) s = process_obo_file bs clock lines s"
proof (cases "obo_lines bs clock lines \<lparr>current_term = [], batch = [], session = s, flushed = 0\<rparr>")
  case (Inl e)
  then show ?thesis by (simp add: process_obo_file_def obo_lines_append)
next
  case (Inr st)
  from obo_lines_no_marker[OF assms, of bs clock st] obtain ct where
    "obo_lines bs clock tail st = Inr (st\<lparr>current_term := ct\<rparr>)" by blast
  with Inr show ?thesis by (simp add: process_obo_file_def obo_lines_append)
qed

text \<open>
  Claim C1 on the code. The input holds one \<^verbatim>\<open>[Term]\<close> block and no marker after it.
  \<^verbatim>\<open>process_obo_file\<close> (phenotype.py; graph.py has the same loop) sends nothing to the
  store: the block is still in \<^verbatim>\<open>current_term\<close> when the lines end and only the batch
  is flushed. The parser of conn.py, which has \<^verbatim>\<open># Add the last term\<close> after its loop,
  keeps the term. By \<open>after_last_marker_ignored\<close> the same holds for any lines after the
  last marker of any input.
\<close>

theorem final_term_dropped:
  "process_obo_file 1000 clock [''[Term]'', ''id: HP:0000001'', ''name: All''] empty_sink = Inr empty_sink
   \<and> map_sum id (map fst) (parse_terms [''[Term]'', ''id: HP:0000001'', ''name: All'']) = Inr [''HP:0000001'']"
  by code_simp

lemma node_items_mem: "Node n \<in> set b \<Longrightarrow> n \<in> set (node_items b)"
  by (induction b rule: node_items.induct) auto

lemma relationship_items_mem:
  "Relationship c p \<in> set b \<Longrightarrow> (c, p) \<in> set (relationship_items b)"
  by (induction b rule: relationship_items.induct) auto

text \<open>
  Within one batch the nodes are merged before the relationships: a relationship record
  whose two end points have node records in the same batch gets its \<^verbatim>\<open>IS_A\<close> edge.
\<close>

lemma same_batch_edge_created:
  assumes "Node nc \<in> set b" and "Node np \<in> set b"
    and "Relationship (n_id nc) (n_id np) \<in> set b"
  shows "(n_id nc, n_id np) \<in> fst ` set (is_a (process_batch now b s))"
proof -
  let ?known = "has_key (apply_ops blank_phenotype (node_ops (fst now) (node_items b)) (phenotypes s))"
  have "n_id nc \<in> fst ` set (node_ops (fst now) (node_items b))"
    using node_items_mem[OF assms(1)] by (force simp: node_ops_def)
  then have c: "?known (n_id nc)" by (simp add: has_key_apply_ops)
  have "n_id np \<in> fst ` set (node_ops (fst now) (node_items b))"
    using node_items_mem[OF assms(2)] by (force simp: node_ops_def)
  then have p: "?known (n_id np)" by (simp add: has_key_apply_ops)
  have "(n_id nc, n_id np) \<in> fst ` set (is_a_ops (snd now) ?known (relationship_items b))"
    using relationship_items_mem[OF assms(3)] c p by (force simp: is_a_ops_def)
  then show ?thesis by (simp add: process_batch_ops apply_ops_key_set)
qed

text \<open>
  Claim C8 on the code. The two terms of the scenario, \<^verbatim>\<open>HP:0000001\<close> and
  \<^verbatim>\<open>HP:0000002\<close> with \<^verbatim>\<open>is_a: HP:0000001\<close>, in one batch: no \<^verbatim>\<open>IS_A\<close> edge is
  created. Without a marker after the second block that block is never sent. With one,
  both nodes are merged, but the single \<^verbatim>\<open>is_a\<close> value is a string and the loop over
  it yields one relationship record per character, none of which names a node.
\<close>

theorem single_parent_no_edge:
  "map_sum id (\<lambda>s. (map fst (phenotypes s), map fst (is_a s)))
     (process_obo_file 1000 clock
        [''[Term]'', ''id: HP:0000001'', ''[Term]'', ''id: HP:0000002'', ''is_a: HP:0000001'']
        empty_sink)
   = Inr ([''HP:0000001''], [])
   \<and> map_sum id (\<lambda>s. (map fst (phenotypes s), map fst (is_a s)))
     (process_obo_file 1000 clock
        [''[Term]'', ''id: HP:0000001'', ''[Term]'', ''id: HP:0000002'', ''is_a: HP:0000001'', ''[Term]'']
        empty_sink)
   = Inr ([''HP:0000001'', ''HP:0000002''], [])
   \<and> map_sum id (map (\<lambda>i. case i of Node n \<Rightarrow> n_id n | Relationship c p \<Rightarrow> p))
       (term_items [(''id'', Str ''HP:0000002''), (''is_a'', Str ''HP:0000001'')])
   = Inr [''HP:0000002'', ''H'', ''P'', '':'', ''0'', ''0'', ''0'', ''0'', ''0'', ''0'', ''1'']"
  by code_simp

section \<open>Properties of the in-memory query index\<close>

text \<open>
  Claim C2 on the code. The graph has the edge child \<open>\<rightarrow>\<close> parent, and
  \<^verbatim>\<open>networkx.ancestors\<close> follows edges backwards: for the child \<^verbatim>\<open>HP:0000002\<close> of
  \<^verbatim>\<open>HP:0000001\<close>, \<^verbatim>\<open>get_ancestors\<close> is empty and \<^verbatim>\<open>get_descendants\<close> holds the
  parent; for the parent it is the other way round.
\<close>

theorem ancestors_descendants_swapped:
  "map_sum id (\<lambda>g. (get_ancestors g ''HP:0000002'', get_descendants g ''HP:0000002'',
                     get_ancestors g ''HP:0000001'', get_descendants g ''HP:0000001''))
     (parse_obo [''[Term]'', ''id: HP:0000001'', ''[Term]'', ''id: HP:0000002'', ''is_a: HP:0000001 ! All''])
   = Inr ([], [''HP:0000001''], [''HP:0000002''], [])"
  by code_simp

section \<open>Properties of association mining\<close>

lemma length_filter_concat:
  "length (filter P (concat xss)) = sum_list (map (\<lambda>xs. length (filter P xs)) xss)"
  by (induction xss) simp_all

lemma sum_list_indicator:
  "sum_list (map (\<lambda>x. if Q x then 1 else 0) xs) = length (filter Q xs)"
  by (induction xs) simp_all

lemma distinct_key_count:
  "distinct (map fst al) \<Longrightarrow> length (filter (\<lambda>r. fst r = k) al) = (if k \<in> fst ` set al then 1 else 0)"
proof (induction al)
  case Nil
  then show ?case by simp
next
  case (Cons e al)
  then have d: "distinct (map fst al)" and n: "fst e \<notin> fst ` set al" by simp_all
  show ?case
  proof (cases "fst e = k")
    case True
    have "\<forall>r\<in>set al. fst r \<noteq> k"
    proof
      fix r assume "r \<in> set al"
      then have "fst r \<in> fst ` set al" by (rule imageI)
      with n True show "fst r \<noteq> k" by metis
    qed
    then have "filter (\<lambda>r. fst r = k) al = []" by (simp add: filter_empty_conv)
    with True show ?thesis by simp
  next
    case False
    with Cons.IH[OF d] show ?thesis by auto
  qed
qed

lemma filter_other_end:
  "P p2 \<Longrightarrow> p2 \<noteq> p1 \<Longrightarrow>
   filter (\<lambda>x. x = p2) (map (\<lambda>r2. snd (fst r2))
      (filter (\<lambda>r2. fst (fst r2) = d \<and> snd (fst r2) \<noteq> p1 \<and> P (snd (fst r2))) H))
   = map (\<lambda>r2. snd (fst r2)) (filter (\<lambda>r2. fst r2 = (d, p2)) H)"
  by (induction H) (auto simp: prod_eq_iff)

lemma co_occurrence_count:
  assumes dist: "distinct (map fst (has_phenotype s))"
    and p2: "has_key (phenotypes s) p2" and ne: "p2 \<noteq> p1"
  shows "co_occurrences s p1 p2 = card (shared_diseases s p1 p2)"
proof -
  let ?H = "has_phenotype s"
  let ?Q = "\<lambda>r1. snd (fst r1) = p1 \<and> has_key (diseases s) (fst (fst r1)) \<and>
                  has_key ?H (fst (fst r1), p2)"
  have inner: "length (filter (\<lambda>x. x = p2)
        (if snd (fst r1) = p1 \<and> has_key (diseases s) (fst (fst r1))
         then map (\<lambda>r2. snd (fst r2))
                (filter (\<lambda>r2. fst (fst r2) = fst (fst r1) \<and> snd (fst r2) \<noteq> p1 \<and>
                               has_key (phenotypes s) (snd (fst r2))) ?H)
         else [])) = (if ?Q r1 then 1 else 0)" for r1
  proof (cases "snd (fst r1) = p1 \<and> has_key (diseases s) (fst (fst r1))")
    case False
    then show ?thesis by auto
  next
    case True
    have "filter (\<lambda>x. x = p2) (map (\<lambda>r2. snd (fst r2))
            (filter (\<lambda>r2. fst (fst r2) = fst (fst r1) \<and> snd (fst r2) \<noteq> p1 \<and>
                           has_key (phenotypes s) (snd (fst r2))) ?H))
        = map (\<lambda>r2. snd (fst r2)) (filter (\<lambda>r2. fst r2 = (fst (fst r1), p2)) ?H)"
      using p2 ne by (rule filter_other_end)
    then have "length (filter (\<lambda>x. x = p2) (map (\<lambda>r2. snd (fst r2))
            (filter (\<lambda>r2. fst (fst r2) = fst (fst r1) \<and> snd (fst r2) \<noteq> p1 \<and>
                           has_key (phenotypes s) (snd (fst r2))) ?H)))
        = length (filter (\<lambda>r2. fst r2 = (fst (fst r1), p2)) ?H)"
      by simp
    also have "\<dots> = (if (fst (fst r1), p2) \<in> fst ` set ?H then 1 else 0)"
      by (rule distinct_key_count[OF dist])
    finally show ?thesis using True by (simp add: has_key_iff)
  qed
  have "co_occurrences s p1 p2 = length (filter ?Q ?H)"
    unfolding co_occurrences_def co_occurrence_rows_def length_filter_concat map_map comp_def inner
    by (rule sum_list_indicator)
  also have "\<dots> = length (map fst (filter ?Q ?H))" by simp
  also have "\<dots> = card (set (map fst (filter ?Q ?H)))"
    using dist by (simp only: distinct_card[OF distinct_map_filter])
  also have "set (map fst (filter ?Q ?H)) = (\<lambda>d. (d, p1)) ` shared_diseases s p1 p2"
  proof (intro set_eqI iffI)
    fix k assume "k \<in> set (map fst (filter ?Q ?H))"
    then obtain r where r: "r \<in> set ?H" "?Q r" "k = fst r" by auto
    from r(2,3) have "snd k = p1" by simp
    then have k: "k = (fst k, p1)" by (simp add: prod_eq_iff)
    from r(1,3) have "k \<in> fst ` set ?H" by simp
    with k have "(fst k, p1) \<in> fst ` set ?H" by metis
    then have "has_key ?H (fst k, p1)" by (simp only: has_key_iff)
    with r(2,3) have "fst k \<in> shared_diseases s p1 p2" by (simp add: shared_diseases_def)
    moreover note k
    ultimately show "k \<in> (\<lambda>d. (d, p1)) ` shared_diseases s p1 p2" by (rule rev_image_eqI)
  next
    fix k assume "k \<in> (\<lambda>d. (d, p1)) ` shared_diseases s p1 p2"
    then obtain d where d: "d \<in> shared_diseases s p1 p2" "k = (d, p1)" by auto
    from d(1) have "(d, p1) \<in> fst ` set ?H" by (simp add: shared_diseases_def has_key_iff)
    then obtain r where r: "r \<in> set ?H" "fst r = (d, p1)" by auto
    from d(1) r(2) have "?Q r" by (simp add: shared_diseases_def)
    with r(1) have "r \<in> set (filter ?Q ?H)" by simp
    then have "fst r \<in> set (map fst (filter ?Q ?H))" by (simp only: set_map) (rule imageI)
    with r(2) d(2) show "k \<in> set (map fst (filter ?Q ?H))" by simp
  qed
  also have "card \<dots> = card (shared_diseases s p1 p2)"
    by (rule card_image) (simp add: inj_on_def)
  finally show ?thesis .
qed

lemma map_of_upsert:
  "map_of (upsert k d f al) k' =
     (if k' = k then Some (f (case map_of al k of None \<Rightarrow> d | Some v \<Rightarrow> v)) else map_of al k')"
  by (induction al) auto

lemma apply_ops_establishes:
  assumes "k \<in> fst ` set ops" and "\<forall>op\<in>set ops. fst op = k \<longrightarrow> (\<forall>v. Q (snd op v))"
  shows "\<exists>e. map_of (apply_ops d ops al) k = Some e \<and> Q e"
  using assms
proof (induction ops rule: rev_induct)
  case Nil
  then show ?case by simp
next
  case (snoc op ops)
  obtain k' f where op: "op = (k', f)" by (cases op)
  show ?case
  proof (cases "k' = k")
    case True
    with snoc.prems(2) have "\<forall>v. Q (f v)" by (simp add: op)
    then show ?thesis by (simp add: op True apply_ops_append map_of_upsert)
  next
    case False
    with snoc.prems(1) have "k \<in> fst ` set ops" by (simp add: op)
    moreover from snoc.prems(2) have "\<forall>op\<in>set ops. fst op = k \<longrightarrow> (\<forall>v. Q (snd op v))" by simp
    ultimately obtain e where "map_of (apply_ops d ops al) k = Some e \<and> Q e"
      using snoc.IH by blast
    then show ?thesis using False by (simp add: op apply_ops_append map_of_upsert)
  qed
qed

lemma co_occurrence_rows_associated_with [simp]:
  "co_occurrence_rows (s\<lparr>associated_with := X\<rparr>) p = co_occurrence_rows s p"
  by (simp add: co_occurrence_rows_def cong: if_cong)

lemma total_occurrences_associated_with [simp]:
  "total_occurrences (s\<lparr>associated_with := X\<rparr>) p = total_occurrences s p"
  by (simp add: total_occurrences_def)

lemma co_occurrences_associated_with [simp]:
  "co_occurrences (s\<lparr>associated_with := X\<rparr>) p q = co_occurrences s p q"
  by (simp add: co_occurrences_def)

lemma anchor_rows_associated_with [simp]:
  "anchor_rows (s\<lparr>associated_with := X\<rparr>) = anchor_rows s"
proof
  fix p show "anchor_rows (s\<lparr>associated_with := X\<rparr>) p = anchor_rows s p"
    unfolding anchor_rows_def by simp
qed

lemma all_aw_ops_associated_with [simp]:
  "all_aw_ops clock i pages (s\<lparr>associated_with := X\<rparr>) = all_aw_ops clock i pages s"
  by (induction pages arbitrary: i) simp_all

lemma mine_page_ops:
  "mine_page now page s =
     s\<lparr>associated_with := apply_ops blank_associated_with
          (aw_ops now (concat (map (anchor_rows s) page))) (associated_with s)\<rparr>"
  by (simp add: mine_page_def aw_ops_def fold_upsert_ops)

lemma mine_pages_ops:
  "mine_pages clock i pages s =
     s\<lparr>associated_with := apply_ops blank_associated_with (all_aw_ops clock i pages s)
          (associated_with s)\<rparr>"
proof (induction pages arbitrary: i s)
  case Nil
  then show ?case by simp
next
  case (Cons page pages)
  show ?case by (simp add: Cons.IH mine_page_ops apply_ops_append)
qed

lemma all_aw_ops_keys:
  "fst ` set (all_aw_ops clock i pages s) = fst ` set (concat (map (anchor_rows s) (concat pages)))"
  by (induction pages arbitrary: i) (simp_all add: aw_ops_def image_Un image_image)

lemma all_aw_ops_mem:
  "op \<in> set (all_aw_ops clock i pages s) \<Longrightarrow>
   \<exists>t row. row \<in> set (concat (map (anchor_rows s) (concat pages))) \<and>
      op = (fst row, set_associated_with t (fst (snd row)) (snd (snd row)))"
proof (induction pages arbitrary: i)
  case Nil
  then show ?case by simp
next
  case (Cons page pages)
  from Cons.prems consider
    (a) "op \<in> set (aw_ops (clock i) (concat (map (anchor_rows s) page)))"
    | (b) "op \<in> set (all_aw_ops clock (Suc i) pages s)" by auto
  then show ?case
  proof cases
    case a
    then have "op \<in> (\<lambda>row. (fst row, set_associated_with (clock i) (fst (snd row)) (snd (snd row))))
        ` set (concat (map (anchor_rows s) page))"
      by (simp only: aw_ops_def set_map)
    then obtain row where
      "op = (fst row, set_associated_with (clock i) (fst (snd row)) (snd (snd row)))"
      "row \<in> set (concat (map (anchor_rows s) page))"
      by (rule imageE)
    then show ?thesis by (intro exI[of _ "clock i"] exI[of _ row]) simp
  next
    case b
    from Cons.IH[OF b] obtain t row where
      "row \<in> set (concat (map (anchor_rows s) (concat pages)))"
      "op = (fst row, set_associated_with t (fst (snd row)) (snd (snd row)))" by blast
    then show ?thesis by (intro exI[of _ t] exI[of _ row]) simp
  qed
qed

lemma concat_pages_of_100: "concat (pages_of_100 xs) = xs"
  by (induction xs rule: pages_of_100.induct) (subst pages_of_100.simps, simp)

lemma concat_map_mem: "p \<in> set (concat (map F xs)) \<longleftrightarrow> (\<exists>x\<in>set xs. p \<in> set (F x))"
  by simp

lemma co_occurrence_rows_mem:
  assumes "p2 \<in> set (co_occurrence_rows s p1)"
  shows "has_key (phenotypes s) p2 \<and> p2 \<noteq> p1"
proof -
  let ?G = "\<lambda>r1 r2. fst (fst r2) = fst (fst r1) \<and> snd (fst r2) \<noteq> p1 \<and>
                        has_key (phenotypes s) (snd (fst r2))"
  let ?F = "\<lambda>r1 :: (string \<times> string) \<times> has_phenotype_edge. if snd (fst r1) = p1 \<and> has_key (diseases s) (fst (fst r1))
        then map (\<lambda>r2. snd (fst r2)) (filter (?G r1) (has_phenotype s)) else []"
  from assms have "p2 \<in> set (concat (map ?F (has_phenotype s)))"
    by (simp only: co_occurrence_rows_def)
  then have "\<exists>r1\<in>set (has_phenotype s). p2 \<in> set (?F r1)"
    by (rule concat_map_mem[THEN iffD1])
  then obtain r1 where "p2 \<in> set (?F r1)" by blast
  then have "p2 \<in> set (map (\<lambda>r2. snd (fst r2)) (filter (?G r1) (has_phenotype s)))"
    by (cases "snd (fst r1) = p1 \<and> has_key (diseases s) (fst (fst r1))") simp_all
  then obtain r2 where "p2 = snd (fst r2)" "r2 \<in> set (filter (?G r1) (has_phenotype s))"
    unfolding set_map by (rule imageE)
  then show ?thesis by simp
qed

lemma count_ge_mem: "5 \<le> co_occurrences s p1 p2 \<Longrightarrow> p2 \<in> set (co_occurrence_rows s p1)"
proof -
  assume "5 \<le> co_occurrences s p1 p2"
  then have "filter (\<lambda>x. x = p2) (co_occurrence_rows s p1) \<noteq> []"
    unfolding co_occurrences_def by auto
  then show ?thesis by (simp add: filter_empty_conv)
qed

lemma anchor_rows_mem:
  "row \<in> set (anchor_rows s p1) \<longleftrightarrow>
     has_key (phenotypes s) p1 \<and>
     (\<exists>p2. row = ((p1, p2), co_occurrences s p1 p2, total_occurrences s p1) \<and>
           5 \<le> co_occurrences s p1 p2)"
proof (cases "has_key (phenotypes s) p1")
  case False
  then show ?thesis by (simp add: anchor_rows_def)
next
  case True
  let ?F = "\<lambda>p2. ((p1, p2), co_occurrences s p1 p2, total_occurrences s p1)"
  have "{p2 \<in> set (co_occurrence_rows s p1). 5 \<le> co_occurrences s p1 p2}
      = {p2. 5 \<le> co_occurrences s p1 p2}"
    using count_ge_mem[of s p1] by blast
  then have "set (anchor_rows s p1) = ?F ` {p2. 5 \<le> co_occurrences s p1 p2}"
    using True by (simp add: anchor_rows_def)
  then show ?thesis using True by (simp add: image_iff) blast
qed

lemma mined_iff:
  assumes dist: "distinct (map fst (has_phenotype s))"
  shows "5 \<le> co_occurrences s p1 p2 \<longleftrightarrow>
         has_key (phenotypes s) p2 \<and> p1 \<noteq> p2 \<and> 5 \<le> card (shared_diseases s p1 p2)"
proof
  assume c: "5 \<le> co_occurrences s p1 p2"
  from co_occurrence_rows_mem[OF count_ge_mem[OF c]] have m: "has_key (phenotypes s) p2" "p2 \<noteq> p1"
    by simp_all
  from c co_occurrence_count[OF dist m] m
  show "has_key (phenotypes s) p2 \<and> p1 \<noteq> p2 \<and> 5 \<le> card (shared_diseases s p1 p2)" by simp
next
  assume "has_key (phenotypes s) p2 \<and> p1 \<noteq> p2 \<and> 5 \<le> card (shared_diseases s p1 p2)"
  then have m: "has_key (phenotypes s) p2" "p2 \<noteq> p1" and c: "5 \<le> card (shared_diseases s p1 p2)"
    by auto
  from c co_occurrence_count[OF dist m]
  show "5 \<le> co_occurrences s p1 p2" by simp
qed

lemma concat_anchor_rows_mem:
  "row \<in> set (concat (map (anchor_rows s) ids)) \<longleftrightarrow> (\<exists>p1\<in>set ids. row \<in> set (anchor_rows s p1))"
  by simp

lemma mined_keys:
  assumes dist: "distinct (map fst (has_phenotype s))"
    and ids: "set ids = fst ` set (phenotypes s)"
  shows "fst ` set (concat (map (anchor_rows s) ids)) =
     {(p1, p2). has_key (phenotypes s) p1 \<and> has_key (phenotypes s) p2 \<and> p1 \<noteq> p2 \<and>
                5 \<le> card (shared_diseases s p1 p2)}" (is "?L = ?R")
proof (intro set_eqI iffI)
  fix k assume "k \<in> ?L"
  then obtain row where row: "k = fst row" "row \<in> set (concat (map (anchor_rows s) ids))"
    by (rule imageE)
  from row(2) obtain p1 where "row \<in> set (anchor_rows s p1)"
    unfolding concat_anchor_rows_mem by blast
  then obtain p2 where p: "has_key (phenotypes s) p1"
      "row = ((p1, p2), co_occurrences s p1 p2, total_occurrences s p1)"
      "5 \<le> co_occurrences s p1 p2"
    unfolding anchor_rows_mem by blast
  from p(3) mined_iff[OF dist, of p1 p2]
  have "has_key (phenotypes s) p2 \<and> p1 \<noteq> p2 \<and> 5 \<le> card (shared_diseases s p1 p2)" by blast
  with p(1,2) row(1) show "k \<in> ?R" by simp
next
  fix k assume "k \<in> ?R"
  then obtain p1 p2 where k: "k = (p1, p2)" and p: "has_key (phenotypes s) p1"
      "has_key (phenotypes s) p2 \<and> p1 \<noteq> p2 \<and> 5 \<le> card (shared_diseases s p1 p2)" by blast
  let ?row = "((p1, p2), co_occurrences s p1 p2, total_occurrences s p1)"
  from p(2) mined_iff[OF dist, of p1 p2] have "5 \<le> co_occurrences s p1 p2" by blast
  with p(1) have "?row \<in> set (anchor_rows s p1)"
    unfolding anchor_rows_mem by blast
  moreover from p(1) ids have "p1 \<in> set ids" by (simp add: has_key_iff)
  ultimately have "?row \<in> set (concat (map (anchor_rows s) ids))"
    unfolding concat_anchor_rows_mem by blast
  then have "fst ?row \<in> ?L" by (rule imageI)
  with k show "k \<in> ?L" by simp
qed

lemma total_occurrences_card:
  assumes dist: "distinct (map fst (has_phenotype s))"
  shows "total_occurrences s p = card {d. has_key (has_phenotype s) (d, p)}"
proof -
  let ?H = "has_phenotype s"
  let ?Q = "\<lambda>r. snd (fst r) = p"
  have "total_occurrences s p = length (map fst (filter ?Q ?H))"
    by (simp add: total_occurrences_def)
  also have "\<dots> = card (set (map fst (filter ?Q ?H)))"
    using dist by (simp only: distinct_card[OF distinct_map_filter])
  also have "set (map fst (filter ?Q ?H)) = (\<lambda>d. (d, p)) ` {d. has_key ?H (d, p)}"
  proof (intro set_eqI iffI)
    fix k assume "k \<in> set (map fst (filter ?Q ?H))"
    then obtain r where r: "r \<in> set ?H" "?Q r" "k = fst r" by auto
    from r(2,3) have k: "k = (fst k, p)" by (simp add: prod_eq_iff)
    from r(1,3) have "k \<in> fst ` set ?H" by simp
    with k have "(fst k, p) \<in> fst ` set ?H" by metis
    then have "fst k \<in> {d. has_key ?H (d, p)}" by (simp only: has_key_iff mem_Collect_eq)
    then show "k \<in> (\<lambda>d. (d, p)) ` {d. has_key ?H (d, p)}" using k by (rule rev_image_eqI)
  next
    fix k assume "k \<in> (\<lambda>d. (d, p)) ` {d. has_key ?H (d, p)}"
    then obtain d where d: "has_key ?H (d, p)" "k = (d, p)" by auto
    from d(1) have "(d, p) \<in> fst ` set ?H" by (simp add: has_key_iff)
    then obtain r where r: "r \<in> set ?H" "fst r = (d, p)" by auto
    then have "r \<in> set (filter ?Q ?H)" by simp
    then have "fst r \<in> set (map fst (filter ?Q ?H))" by (simp only: set_map) (rule imageI)
    with r(2) d(2) show "k \<in> set (map fst (filter ?Q ?H))" by simp
  qed
  also have "card \<dots> = card {d. has_key ?H (d, p)}"
    by (rule card_image) (simp add: inj_on_def)
  finally show ?thesis .
qed

lemma create_symptom_relationships_ops:
  "create_symptom_relationships clock s =
     s\<lparr>associated_with := apply_ops blank_associated_with
          (all_aw_ops clock 0 (pages_of_100 (sort (map fst (phenotypes s)))) s)
          (associated_with s)\<rparr>"
  by (simp add: create_symptom_relationships_def mine_pages_ops)

text \<open>
  Claim C5. On a store whose \<^verbatim>\<open>HAS_PHENOTYPE\<close> relationships are one per pair of end
  points (as \<^verbatim>\<open>MERGE\<close> keeps them), \<^verbatim>\<open>create_symptom_relationships\<close> adds an
  \<^verbatim>\<open>ASSOCIATED_WITH\<close> relationship \<open>p1 \<rightarrow> p2\<close> exactly for the pairs of different
  Phenotype nodes that share at least five diseases; the relationships that were there
  before stay. The relationship of such a pair \<open>a \<rightarrow> b\<close> then holds the number of shared
  diseases as \<^verbatim>\<open>co_occurrence_count\<close>, and that number divided by the number of
  \<^verbatim>\<open>HAS_PHENOTYPE\<close> relationships into \<open>a\<close> as \<^verbatim>\<open>correlation_strength\<close>.
\<close>

theorem association_mining:
  assumes "distinct (map fst (has_phenotype s))"
  shows "fst ` set (associated_with (create_symptom_relationships clock s)) =
           fst ` set (associated_with s) \<union>
           {(p1, p2). has_key (phenotypes s) p1 \<and> has_key (phenotypes s) p2 \<and> p1 \<noteq> p2 \<and>
                      5 \<le> card (shared_diseases s p1 p2)}
       \<and> (has_key (phenotypes s) a \<and> has_key (phenotypes s) b \<and> a \<noteq> b \<and>
            5 \<le> card (shared_diseases s a b) \<longrightarrow>
          (\<exists>e. map_of (associated_with (create_symptom_relationships clock s)) (a, b) = Some e \<and>
               aw_co_occurrence_count e = card (shared_diseases s a b) \<and>
               aw_correlation_strength e =
                 real (card (shared_diseases s a b)) / real (card {d. has_key (has_phenotype s) (d, a)})))"
proof -
  let ?ids = "sort (map fst (phenotypes s))"
  let ?ops = "all_aw_ops clock 0 (pages_of_100 ?ids) s"
  have ids: "set ?ids = fst ` set (phenotypes s)" by simp
  have keys: "fst ` set ?ops =
     {(p1, p2). has_key (phenotypes s) p1 \<and> has_key (phenotypes s) p2 \<and> p1 \<noteq> p2 \<and>
                5 \<le> card (shared_diseases s p1 p2)}"
    unfolding all_aw_ops_keys concat_pages_of_100 by (rule mined_keys[OF assms ids])
  have k0: "fst ` set (associated_with (create_symptom_relationships clock s)) =
           fst ` set ?ops \<union> fst ` set (associated_with s)"
    by (simp add: create_symptom_relationships_ops apply_ops_key_set)
  have 1: "fst ` set (associated_with (create_symptom_relationships clock s)) =
           fst ` set (associated_with s) \<union>
           {(p1, p2). has_key (phenotypes s) p1 \<and> has_key (phenotypes s) p2 \<and> p1 \<noteq> p2 \<and>
                      5 \<le> card (shared_diseases s p1 p2)}"
    unfolding k0 keys by (rule Un_commute)
  have 2: "\<exists>e. map_of (associated_with (create_symptom_relationships clock s)) (a, b) = Some e \<and>
               aw_co_occurrence_count e = card (shared_diseases s a b) \<and>
               aw_correlation_strength e =
                 real (card (shared_diseases s a b)) / real (card {d. has_key (has_phenotype s) (d, a)})"
    if ab: "has_key (phenotypes s) a \<and> has_key (phenotypes s) b \<and> a \<noteq> b \<and>
            5 \<le> card (shared_diseases s a b)"
  proof -
    let ?Q = "\<lambda>e. aw_co_occurrence_count e = card (shared_diseases s a b) \<and>
               aw_correlation_strength e =
                 real (card (shared_diseases s a b)) / real (card {d. has_key (has_phenotype s) (d, a)})"
    from ab have mem: "(a, b) \<in> fst ` set ?ops" unfolding keys by simp
    have est: "\<forall>op\<in>set ?ops. fst op = (a, b) \<longrightarrow> (\<forall>v. ?Q (snd op v))"
    proof (intro ballI impI allI)
      fix op v assume op: "op \<in> set ?ops" and k: "fst op = (a, b)"
      from all_aw_ops_mem[OF op] obtain t row where
        row: "row \<in> set (concat (map (anchor_rows s) ?ids))"
        and opr: "op = (fst row, set_associated_with t (fst (snd row)) (snd (snd row)))"
        unfolding concat_pages_of_100 by blast
      from row obtain p1 where "row \<in> set (anchor_rows s p1)"
        unfolding concat_anchor_rows_mem by blast
      then obtain p2 where r: "row = ((p1, p2), co_occurrences s p1 p2, total_occurrences s p1)"
        unfolding anchor_rows_mem by blast
      from k opr r have pp: "p1 = a" "p2 = b" by simp_all
      from ab have "has_key (phenotypes s) b" "b \<noteq> a" by auto
      from co_occurrence_count[OF assms this]
      have c: "co_occurrences s a b = card (shared_diseases s a b)" .
      show "?Q (snd op v)"
        by (simp add: opr r pp c set_associated_with_def total_occurrences_card[OF assms])
    qed
    from apply_ops_establishes[OF mem est, of blank_associated_with "associated_with s"]
    show ?thesis by (simp add: create_symptom_relationships_ops)
  qed
  show ?thesis
  proof (intro conjI impI)
    show "fst ` set (associated_with (create_symptom_relationships clock s)) =
           fst ` set (associated_with s) \<union>
           {(p1, p2). has_key (phenotypes s) p1 \<and> has_key (phenotypes s) p2 \<and> p1 \<noteq> p2 \<and>
                      5 \<le> card (shared_diseases s p1 p2)}" by (rule 1)
  next
    assume "has_key (phenotypes s) a \<and> has_key (phenotypes s) b \<and> a \<noteq> b \<and>
            5 \<le> card (shared_diseases s a b)"
    then show "\<exists>e. map_of (associated_with (create_symptom_relationships clock s)) (a, b) = Some e \<and>
               aw_co_occurrence_count e = card (shared_diseases s a b) \<and>
               aw_correlation_strength e =
                 real (card (shared_diseases s a b)) / real (card {d. has_key (has_phenotype s) (d, a)})"
      by (rule 2)
  qed
qed

text \<open>
  Claim C5 on the scenario of the specification: \<^verbatim>\<open>A\<close> and \<^verbatim>\<open>B\<close> share the six diseases
  \<^verbatim>\<open>D1\<close> to \<^verbatim>\<open>D6\<close>, \<^verbatim>\<open>A\<close> and \<^verbatim>\<open>C\<close> share only \<^verbatim>\<open>D7\<close>, and \<^verbatim>\<open>A\<close> has seven
  \<^verbatim>\<open>HAS_PHENOTYPE\<close> relationships. The relationship \<^verbatim>\<open>A\<close> \<open>\<rightarrow>\<close> \<^verbatim>\<open>B\<close> is created with
  count 6 and strength 6/7; the only other relationship created is \<^verbatim>\<open>B\<close> \<open>\<rightarrow>\<close> \<^verbatim>\<open>A\<close>,
  so there is none from \<^verbatim>\<open>A\<close> to \<^verbatim>\<open>C\<close>.
\<close>

theorem association_mining_witness:
  "card (shared_diseases mining_example ''A'' ''B'') = 6
   \<and> (\<exists>e. map_of (associated_with (create_symptom_relationships clock0 mining_example)) (''A'', ''B'') = Some e
         \<and> aw_co_occurrence_count e = 6 \<and> aw_correlation_strength e = 6 / 7)
   \<and> map fst (associated_with (create_symptom_relationships clock0 mining_example))
       = [(''A'', ''B''), (''B'', ''A'')]"
proof -
  have d: "distinct (map fst (has_phenotype mining_example))" by code_simp
  have ks: "map fst (associated_with (create_symptom_relationships clock0 mining_example))
       = [(''A'', ''B''), (''B'', ''A'')]" by code_simp
  have co: "co_occurrences mining_example ''A'' ''B'' = 6" by code_simp
  have tot: "total_occurrences mining_example ''A'' = 7" by code_simp
  have pa: "has_key (phenotypes mining_example) ''A''" by code_simp
  have pb: "has_key (phenotypes mining_example) ''B''" by code_simp
  have ne: "''A'' \<noteq> ''B''" by simp
  have c6: "card (shared_diseases mining_example ''A'' ''B'') = 6"
    using co_occurrence_count[OF d pb, of "''A''"] co by simp
  have t7: "card {d. has_key (has_phenotype mining_example) (d, ''A'')} = 7"
    using total_occurrences_card[OF d, of "''A''"] tot by simp
  from association_mining[OF d, of clock0 "''A''" "''B''"] pa pb ne c6 t7 ks
  show ?thesis by simp
qed

section \<open>Properties of the analytics passes\<close>

lemma map_of_map_values:
  "map_of (map (\<lambda>e. (fst e, f (fst e) (snd e))) al) p = map_option (f p) (map_of al p)"
  by (induction al) auto

lemma on_phenotypes_map_of:
  "map_of (phenotypes (on_phenotypes f s)) p = map_option (f p) (map_of (phenotypes s) p)"
  by (simp add: on_phenotypes_def map_of_map_values)

lemma on_phenotypes_associated_with [simp]:
  "associated_with (on_phenotypes f s) = associated_with s"
  by (simp add: on_phenotypes_def)

lemma assoc_rows_on_phenotypes [simp]: "assoc_rows (on_phenotypes f s) p = assoc_rows s p"
  by (simp add: assoc_rows_def)

lemma length_end_rows:
  "length (concat (map (\<lambda>r. if fst (fst r) = p then [snd (fst r)]
                       else if snd (fst r) = p then [fst (fst r)] else []) al)) =
     length (filter (\<lambda>r. fst (fst r) = p \<or> snd (fst r) = p) al)"
  by (induction al) auto

lemma assoc_rows_length:
  "length (assoc_rows s p) =
     length (filter (\<lambda>r. fst (fst r) = p \<or> snd (fst r) = p) (associated_with s))"
  unfolding assoc_rows_def by (rule length_end_rows)

lemma incident_card:
  assumes dist: "distinct (map fst (associated_with s))"
  shows "card (incident s p) = length (assoc_rows s p)"
proof -
  let ?A = "associated_with s"
  let ?Q = "\<lambda>r :: (string \<times> string) \<times> associated_with_edge. fst (fst r) = p \<or> snd (fst r) = p"
  have "set (map fst (filter ?Q ?A)) = incident s p"
    unfolding incident_def by (auto simp: image_iff)
  then have "card (incident s p) = card (set (map fst (filter ?Q ?A)))" by simp
  also have "\<dots> = length (map fst (filter ?Q ?A))"
    using dist by (simp only: distinct_card[OF distinct_map_filter])
  also have "\<dots> = length (assoc_rows s p)" by (simp add: assoc_rows_length)
  finally show ?thesis .
qed

lemma incident_empty:
  assumes "distinct (map fst (associated_with s))"
  shows "incident s p = {} \<longleftrightarrow> assoc_rows s p = []"
proof -
  have "finite (incident s p)" by (simp add: incident_def)
  then have "incident s p = {} \<longleftrightarrow> card (incident s p) = 0" by simp
  then show ?thesis by (simp add: incident_card[OF assms])
qed

lemma identify_hubs_is_hub:
  assumes "map_of (phenotypes s) p = Some n"
  shows "\<exists>n'. map_of (phenotypes (identify_hubs s)) p = Some n' \<and>
     p_is_hub n' = (if assoc_rows s p = [] then p_is_hub n else Some (10 < length (assoc_rows s p)))"
  using assms by (simp add: identify_hubs_def on_phenotypes_map_of)

lemma apply_graph_algorithms_is_hub:
  assumes "map_of (phenotypes s) p = Some n"
  shows "\<exists>n'. map_of (phenotypes (apply_graph_algorithms s)) p = Some n' \<and>
     p_is_hub n' = (if assoc_rows s p = [] then p_is_hub n else Some (10 < length (assoc_rows s p)))"
  using assms
  by (simp add: apply_graph_algorithms_def clustering_coefficients_def identify_hubs_def
      betweenness_score_def degree_centrality_def on_phenotypes_map_of)

text \<open>
  Claim C9. \<open>incident s p\<close> holds the \<^verbatim>\<open>ASSOCIATED_WITH\<close> relationships with \<open>p\<close> at one
  end; the store holds one relationship per pair of end points. After the hub pass, and
  after the whole of \<^verbatim>\<open>apply_graph_algorithms\<close>, \<^verbatim>\<open>is_hub\<close> of a Phenotype node is
  \<^verbatim>\<open>true\<close> exactly when the node has more than ten such relationships, and it is set, to
  that comparison, on every node with one relationship or more. A node without any
  keeps the value it had, which the pass leaves unset on a fresh graph; the hypothesis
  excludes a stale \<^verbatim>\<open>true\<close> there.
\<close>

theorem hub_classification:
  assumes "distinct (map fst (associated_with s))"
    and "map_of (phenotypes s) p = Some n"
    and "incident s p = {} \<longrightarrow> p_is_hub n \<noteq> Some True"
  shows "(\<exists>n'. map_of (phenotypes (identify_hubs s)) p = Some n' \<and>
            (p_is_hub n' = Some True \<longleftrightarrow> 10 < card (incident s p)) \<and>
            (incident s p \<noteq> {} \<longrightarrow> p_is_hub n' = Some (10 < card (incident s p))))
       \<and> (\<exists>n'. map_of (phenotypes (apply_graph_algorithms s)) p = Some n' \<and>
            (p_is_hub n' = Some True \<longleftrightarrow> 10 < card (incident s p)) \<and>
            (incident s p \<noteq> {} \<longrightarrow> p_is_hub n' = Some (10 < card (incident s p))))"
proof -
  note c = incident_card[OF assms(1), of p] and e = incident_empty[OF assms(1), of p]
  from identify_hubs_is_hub[OF assms(2)] obtain n1 where
    n1: "map_of (phenotypes (identify_hubs s)) p = Some n1"
      "p_is_hub n1 = (if assoc_rows s p = [] then p_is_hub n else Some (10 < length (assoc_rows s p)))"
    by blast
  from apply_graph_algorithms_is_hub[OF assms(2)] obtain n2 where
    n2: "map_of (phenotypes (apply_graph_algorithms s)) p = Some n2"
      "p_is_hub n2 = (if assoc_rows s p = [] then p_is_hub n else Some (10 < length (assoc_rows s p)))"
    by blast
  have q: "(p_is_hub m = Some True \<longleftrightarrow> 10 < card (incident s p)) \<and>
           (incident s p \<noteq> {} \<longrightarrow> p_is_hub m = Some (10 < card (incident s p)))"
    if "p_is_hub m = (if assoc_rows s p = [] then p_is_hub n else Some (10 < length (assoc_rows s p)))"
    for m :: phenotype_node
  proof (cases "assoc_rows s p = []")
    case True
    with e have "incident s p = {}" by simp
    with assms(3) that True show ?thesis by simp
  next
    case False
    with e have "incident s p \<noteq> {}" by simp
    with that False c show ?thesis by simp
  qed
  from n1(1) q[OF n1(2)] n2(1) q[OF n2(2)] show ?thesis by blast
qed

text \<open>
  Claim C9 at the boundary: \<^verbatim>\<open>H11\<close> with eleven relationships becomes a hub,
  \<^verbatim>\<open>H10\<close> with ten does not.
\<close>

theorem hub_classification_witness:
  "card (incident hub_example ''H11'') = 11
   \<and> (\<exists>n'. map_of (phenotypes (identify_hubs hub_example)) ''H11'' = Some n' \<and> p_is_hub n' = Some True)
   \<and> (\<exists>n'. map_of (phenotypes (apply_graph_algorithms hub_example)) ''H11'' = Some n' \<and> p_is_hub n' = Some True)
   \<and> card (incident hub_example ''H10'') = 10
   \<and> (\<exists>n'. map_of (phenotypes (identify_hubs hub_example)) ''H10'' = Some n' \<and> p_is_hub n' = Some False)
   \<and> (\<exists>n'. map_of (phenotypes (apply_graph_algorithms hub_example)) ''H10'' = Some n' \<and> p_is_hub n' = Some False)"
proof -
  have d: "distinct (map fst (associated_with hub_example))" by code_simp
  have m11: "map_of (phenotypes hub_example) ''H11'' = Some blank_phenotype" by code_simp
  have m10: "map_of (phenotypes hub_example) ''H10'' = Some blank_phenotype" by code_simp
  have b: "incident hub_example p = {} \<longrightarrow> p_is_hub blank_phenotype \<noteq> Some True" for p
    by (simp add: blank_phenotype_def)
  have l11: "length (assoc_rows hub_example ''H11'') = 11" by code_simp
  have l10: "length (assoc_rows hub_example ''H10'') = 10" by code_simp
  have c11: "card (incident hub_example ''H11'') = 11" using incident_card[OF d, of "''H11''"] l11 by simp
  have c10: "card (incident hub_example ''H10'') = 10" using incident_card[OF d, of "''H10''"] l10 by simp
  have n11: "incident hub_example ''H11'' \<noteq> {}" using c11 by auto
  have n10: "incident hub_example ''H10'' \<noteq> {}" using c10 by auto
  from hub_classification[OF d m11 b] hub_classification[OF d m10 b] c11 c10 n11 n10
  show ?thesis by simp blast
qed

text \<open>
  Claim C3 on the code. In \<open>triangle_example\<close> the node \<^verbatim>\<open>P\<close> has exactly the two
  neighbours \<^verbatim>\<open>A\<close> and \<^verbatim>\<open>B\<close>, joined by one relationship. The undirected pattern
  \<^verbatim>\<open>(n1)-[:ASSOCIATED_WITH]-(n2)\<close> matches that relationship in both orientations, so
  \<open>triangles\<close> is 2 and the coefficient is \<open>2.0 * 2 / (2 * 1) = 2\<close>, not 1. For \<^verbatim>\<open>Y\<close> and
  \<^verbatim>\<open>Z\<close> (one neighbour) and \<^verbatim>\<open>W\<close> (none) a \<^verbatim>\<open>MATCH\<close> finds nothing, the \<^verbatim>\<open>SET\<close> with
  its \<^verbatim>\<open>WHEN degree <= 1 THEN 0\<close> never runs and the property stays unset. With a
  relationship in each direction between the same three nodes, as the mining statement
  creates them, \<open>degree\<close> is 4, \<open>triangles\<close> is 4 and the coefficient is 2/3.
\<close>

theorem clustering_coefficient_doubled:
  "map (\<lambda>e. (fst e, length (assoc_rows triangle_example (fst e)),
                length (triangle_rows triangle_example (assoc_rows triangle_example (fst e)))))
       (phenotypes triangle_example)
     = [(''P'', 2, 2), (''A'', 2, 2), (''B'', 2, 2), (''Y'', 1, 0), (''Z'', 1, 0), (''W'', 0, 0)]
   \<and> map (\<lambda>e. (fst e, p_cluster_coefficient (snd e)))
       (phenotypes (clustering_coefficients triangle_example))
     = [(''P'', Some 2), (''A'', Some 2), (''B'', Some 2), (''Y'', None), (''Z'', None), (''W'', None)]
   \<and> map (\<lambda>e. (fst e, p_cluster_coefficient (snd e)))
       (phenotypes (apply_graph_algorithms triangle_example))
     = [(''P'', Some 2), (''A'', Some 2), (''B'', Some 2), (''Y'', None), (''Z'', None), (''W'', None)]
   \<and> map (\<lambda>e. (fst e, length (assoc_rows mutual_triangle_example (fst e)),
                length (triangle_rows mutual_triangle_example (assoc_rows mutual_triangle_example (fst e))),
                p_cluster_coefficient (snd e)))
       (phenotypes (clustering_coefficients mutual_triangle_example))
     = [(''P'', 4, 4, Some (2 / 3)), (''A'', 4, 4, Some (2 / 3)), (''B'', 4, 4, Some (2 / 3))]"
  by code_simp

section \<open>Properties of the pipeline\<close>

text \<open>
  Claim C4 on the code. \<^verbatim>\<open>add_phenotype_metrics\<close> is not a method of
  \<^verbatim>\<open>GraphEnhancer\<close>, so the call \<^verbatim>\<open>graph_enhancer.add_phenotype_metrics()\<close> of \<^verbatim>\<open>main\<close>
  raises \<^verbatim>\<open>AttributeError\<close> on every store: \<^verbatim>\<open>main\<close> never completes, and on the example
  files, where the five steps before succeed, it ends with that error. Called as the
  function it is, on the mined \<open>metrics_example\<close>, the statement sets the metrics of
  \<^verbatim>\<open>A\<close> and \<^verbatim>\<open>B\<close> only: \<^verbatim>\<open>C\<close> has a disease but no \<^verbatim>\<open>ASSOCIATED_WITH\<close> relationship,
  \<^verbatim>\<open>E\<close> has no disease, and for both a \<^verbatim>\<open>MATCH\<close> leaves no row, so prevalence,
  connectivity and specificity stay unset.
\<close>

theorem metrics_pass_not_run:
  "call_method ''add_phenotype_metrics'' clock s = Inl AttributeError
   \<and> (\<exists>e. main batch_size ck obo hpoa = Inl e)
   \<and> map_sum id (\<lambda>s. (map fst (phenotypes s), map fst (has_phenotype s)))
       (and_then (ingest 1000 clocks0 obo_example hpoa_example empty_sink) (\<lambda>s2.
        and_then (call_method ''create_symptom_relationships'' clock0 s2) (\<lambda>s3.
        and_then (call_method ''create_symptom_clusters'' clock0 s3)
          (call_method ''apply_graph_algorithms'' clock0))))
     = Inr ([''HP:0000001''], [(''OMIM:1'', ''HP:0000001'')])
   \<and> main 1000 clocks0 obo_example hpoa_example = Inl AttributeError
   \<and> map (\<lambda>e. (fst e, p_prevalence (snd e), p_connectivity (snd e), p_specificity (snd e)))
       (phenotypes (add_phenotype_metrics (create_symptom_relationships clock0 metrics_example)))
     = [(''A'', Some 7, Some 2, Some (1 / 7)), (''B'', Some 6, Some 2, Some (1 / 6)),
        (''C'', None, None, None), (''E'', None, None, None)]"
proof -
  have 1: "call_method ''add_phenotype_metrics'' clock s = Inl AttributeError"
    by (simp add: call_method_def GraphEnhancer_methods_def)
  have 2: "\<exists>e. main batch_size ck obo hpoa = Inl e"
    by (auto simp: main_def and_then_def call_method_def GraphEnhancer_methods_def split: sum.splits)
  have 3: "map_sum id (\<lambda>s. (map fst (phenotypes s), map fst (has_phenotype s)))
       (and_then (ingest 1000 clocks0 obo_example hpoa_example empty_sink) (\<lambda>s2.
        and_then (call_method ''create_symptom_relationships'' clock0 s2) (\<lambda>s3.
        and_then (call_method ''create_symptom_clusters'' clock0 s3)
          (call_method ''apply_graph_algorithms'' clock0))))
     = Inr ([''HP:0000001''], [(''OMIM:1'', ''HP:0000001'')])"
    by code_simp
  have 4: "main 1000 clocks0 obo_example hpoa_example = Inl AttributeError" by code_simp
  have 5: "map (\<lambda>e. (fst e, p_prevalence (snd e), p_connectivity (snd e), p_specificity (snd e)))
       (phenotypes (add_phenotype_metrics (create_symptom_relationships clock0 metrics_example)))
     = [(''A'', Some 7, Some 2, Some (1 / 7)), (''B'', Some 6, Some 2, Some (1 / 6)),
        (''C'', None, None, None), (''E'', None, None, None)]"
    by code_simp
  from 1 2 3 4 5 show ?thesis by blast
qed

section \<open>Properties of repeated ingestion\<close>

subsection \<open>A run as a list of batches\<close>








subsection \<open>The writes of a run\<close>
































end
